theory Spec2Isabelle
  imports Main "HOL-Library.Word"
begin

section \<open>Representations and strings (reps-strings.c)\<close>

text \<open>
  A shallow embedding of \<^verbatim>\<open>reps-strings.c\<close>: the layer of the Berkeley-DB
  filesystem that stores file contents as representations, each either a fulltext string
  or a list of svndiff windows against another representation.

  Conventions of the embedding.
  \<^item> A \<^verbatim>\<open>const char *\<close> key is a \<open>string\<close>; a pointer that may be
    \<^verbatim>\<open>NULL\<close> is an \<open>option\<close>.
  \<^item> A function that returns \<^verbatim>\<open>svn_error_t *\<close> returns a sum, \<open>Inl\<close> the failure;
    \<^verbatim>\<open>abort ()\<close> and a failed \<^verbatim>\<open>assert\<close> are the failure \<open>Abort\<close>.
  \<^item> The filesystem is passed explicitly. A function that only reads it takes it and
    returns a sum; a function that writes it returns the pair of its result and the
    filesystem it leaves, also when it fails.
  \<^item> Sizes and offsets (\<^verbatim>\<open>apr_size_t\<close>, \<^verbatim>\<open>svn_filesize_t\<close>) are natural
    numbers; the one subtraction of the source that can wrap is guarded explicitly.
  \<^item> Pools are not modelled.
  \<^item> A parameter that the source names like a field (\<^verbatim>\<open>rep_key\<close>, \<^verbatim>\<open>txn_id\<close>)
    is written \<open>rep_k\<close>, \<open>k\<close> or \<open>txn\<close>: a field of a record is a constant.
\<close>

subsection \<open>Errors\<close>

datatype errcode =
    FS_GENERAL
  | FS_CORRUPT
  | FS_REP_CHANGED
  | FS_REP_NOT_MUTABLE
  | DELTA_MD5_CHECKSUM_ABSENT
  | FS_NO_SUCH_STRING
  | FS_NO_SUCH_REPRESENTATION
  | SVNDIFF_CORRUPT_WINDOW

datatype failure = Svn_error errcode string | Abort

subsection \<open>Data model\<close>

type_synonym byte = "8 word"
type_synonym key = string
type_synonym digest = "byte list"

text \<open>\<^verbatim>\<open>svn_fs__rep_delta_chunk_t\<close>: one window of a delta representation.\<close>

record delta_chunk =
  version :: byte
  chunk_offset :: nat
  string_key :: key
  chunk_size :: nat
  chunk_checksum :: digest
  rep_key :: key

text \<open>
  \<^verbatim>\<open>svn_fs__representation_t\<close>. The field \<^verbatim>\<open>kind\<close> and the union \<^verbatim>\<open>contents\<close>
  are one datatype, so a representation of unknown kind (on which the source calls
  \<^verbatim>\<open>abort ()\<close>) has no value here.
\<close>

datatype rep_contents = Fulltext "key option" | Delta "delta_chunk list"

record representation =
  contents :: rep_contents
  txn_id :: "string option"
  checksum :: digest

subsection \<open>The strings and representations tables\<close>

text \<open>
  Modelled from the spec: the tables \<^verbatim>\<open>bdb/strings-table.c\<close> and
  \<^verbatim>\<open>bdb/reps-table.c\<close> are not among the sources. Each table is a finite map with a
  counter from which new keys are drawn.
\<close>

record svn_fs =
  strings :: "key \<rightharpoonup> byte list"
  next_string :: nat
  reps :: "key \<rightharpoonup> representation"
  next_rep :: nat

text \<open>A number in decimal, as \<^verbatim>\<open>printf\<close> writes it.\<close>

fun decimal :: "nat \<Rightarrow> string" where
  "decimal n =
     (if n < 10 then [''0123456789'' ! n]
      else decimal (n div 10) @ [''0123456789'' ! (n mod 10)])"

declare decimal.simps [simp del]

text \<open>Modelled from the spec: a new key is drawn from the table's counter.\<close>

definition key_of :: "nat \<Rightarrow> key" where
  "key_of n = decimal n"

text \<open>
  Modelled from the spec: \<open>string_append(key?, bytes) -> key\<close>. An absent key allocates
  a new one; the bytes are appended; appending no bytes to an absent key allocates an
  empty string.
\<close>

definition svn_fs__bdb_string_append :: "svn_fs \<Rightarrow> key option \<Rightarrow> byte list \<Rightarrow> key \<times> svn_fs" where
  "svn_fs__bdb_string_append fs k buf =
     (case k of
        None \<Rightarrow>
          (let new = key_of (next_string fs) in
           (new, fs\<lparr>strings := (strings fs)(new \<mapsto> buf), next_string := Suc (next_string fs)\<rparr>))
      | Some k' \<Rightarrow>
          (k', fs\<lparr>strings := (strings fs)
                   (k' \<mapsto> (case strings fs k' of None \<Rightarrow> [] | Some s \<Rightarrow> s) @ buf)\<rparr>))"

text \<open>
  Modelled from the spec: \<open>string_read(key, offset, max_len)\<close> reads up to
  \<open>max_len\<close> bytes from \<open>offset\<close>; no bytes signal the end of the string.
\<close>

definition svn_fs__bdb_string_read :: "svn_fs \<Rightarrow> key \<Rightarrow> nat \<Rightarrow> nat \<Rightarrow> failure + byte list" where
  "svn_fs__bdb_string_read fs k off len =
     (case strings fs k of
        None \<Rightarrow> Inl (Svn_error FS_NO_SUCH_STRING k)
      | Some s \<Rightarrow> Inr (take len (drop off s)))"

text \<open>Modelled from the spec: \<open>string_size(key) -> len\<close>.\<close>

definition svn_fs__bdb_string_size :: "svn_fs \<Rightarrow> key \<Rightarrow> failure + nat" where
  "svn_fs__bdb_string_size fs k =
     (case strings fs k of
        None \<Rightarrow> Inl (Svn_error FS_NO_SUCH_STRING k)
      | Some s \<Rightarrow> Inr (length s))"

text \<open>Modelled from the spec: \<open>string_clear(key)\<close> truncates to empty and keeps the key.\<close>

definition svn_fs__bdb_string_clear :: "svn_fs \<Rightarrow> key \<Rightarrow> (failure + unit) \<times> svn_fs" where
  "svn_fs__bdb_string_clear fs k =
     (case strings fs k of
        None \<Rightarrow> (Inl (Svn_error FS_NO_SUCH_STRING k), fs)
      | Some s \<Rightarrow> (Inr (), fs\<lparr>strings := (strings fs)(k \<mapsto> [])\<rparr>))"

text \<open>Modelled from the spec: \<open>string_delete(key)\<close>.\<close>

definition svn_fs__bdb_string_delete :: "svn_fs \<Rightarrow> key \<Rightarrow> (failure + unit) \<times> svn_fs" where
  "svn_fs__bdb_string_delete fs k =
     (case strings fs k of
        None \<Rightarrow> (Inl (Svn_error FS_NO_SUCH_STRING k), fs)
      | Some s \<Rightarrow> (Inr (), fs\<lparr>strings := (strings fs)(k := None)\<rparr>))"

text \<open>Modelled from the spec: \<open>read_rep(key)\<close>.\<close>

definition svn_fs__bdb_read_rep :: "svn_fs \<Rightarrow> key \<Rightarrow> failure + representation" where
  "svn_fs__bdb_read_rep fs k =
     (case reps fs k of
        None \<Rightarrow> Inl (Svn_error FS_NO_SUCH_REPRESENTATION k)
      | Some r \<Rightarrow> Inr r)"

text \<open>Modelled from the spec: \<open>write_rep(key, rep)\<close>.\<close>

definition svn_fs__bdb_write_rep :: "svn_fs \<Rightarrow> key \<Rightarrow> representation \<Rightarrow> svn_fs" where
  "svn_fs__bdb_write_rep fs k r = fs\<lparr>reps := (reps fs)(k \<mapsto> r)\<rparr>"

text \<open>Modelled from the spec: \<open>write_new_rep(rep) -> key\<close>.\<close>

definition svn_fs__bdb_write_new_rep :: "svn_fs \<Rightarrow> representation \<Rightarrow> key \<times> svn_fs" where
  "svn_fs__bdb_write_new_rep fs r =
     (let new = key_of (next_rep fs) in
      (new, fs\<lparr>reps := (reps fs)(new \<mapsto> r), next_rep := Suc (next_rep fs)\<rparr>))"

text \<open>Modelled from the spec: \<open>delete_rep(key)\<close>.\<close>

definition svn_fs__bdb_delete_rep :: "svn_fs \<Rightarrow> key \<Rightarrow> (failure + unit) \<times> svn_fs" where
  "svn_fs__bdb_delete_rep fs k =
     (case reps fs k of
        None \<Rightarrow> (Inl (Svn_error FS_NO_SUCH_REPRESENTATION k), fs)
      | Some r \<Rightarrow> (Inr (), fs\<lparr>reps := (reps fs)(k := None)\<rparr>))"

subsection \<open>Checksums\<close>

text \<open>\<^verbatim>\<open>MD5_DIGESTSIZE\<close> zero bytes: the value \<^verbatim>\<open>memset (rep->checksum, 0, ...)\<close> leaves.\<close>

definition zero_digest :: digest where
  "zero_digest = replicate 16 0"

text \<open>
  Modelled from the spec: \<^verbatim>\<open>svn_md5_digests_match\<close> (svn_md5.h) is not among the
  sources. The zero-filled digest is the sentinel that always accepts.
\<close>

definition svn_md5_digests_match :: "digest \<Rightarrow> digest \<Rightarrow> bool" where
  "svn_md5_digests_match d1 d2 = (d1 = zero_digest \<or> d2 = zero_digest \<or> d1 = d2)"

text \<open>
  \<^verbatim>\<open>svn_md5_empty_string_digest\<close> (svn_md5.h) is not among the sources: the constant
  is the MD5 digest of the empty string, d41d8cd98f00b204e9800998ecf8427e.
\<close>

definition svn_md5_empty_string_digest :: digest where
  "svn_md5_empty_string_digest =
     [0xd4, 0x1d, 0x8c, 0xd9, 0x8f, 0x00, 0xb2, 0x04,
      0xe9, 0x80, 0x09, 0x98, 0xec, 0xf8, 0x42, 0x7e]"

subsection \<open>Helper functions\<close>

definition rep_is_mutable :: "representation \<Rightarrow> string \<Rightarrow> bool" where
  "rep_is_mutable rep txn =
     (case txn_id rep of
        None \<Rightarrow> False
      | Some t \<Rightarrow> t = txn)"

definition make_fulltext_rep :: "key option \<Rightarrow> string option \<Rightarrow> digest option \<Rightarrow> representation" where
  "make_fulltext_rep str_key txn cksum =
     \<lparr> contents = Fulltext str_key,
       txn_id = (case txn of
                   None \<Rightarrow> None
                 | Some t \<Rightarrow> if t \<noteq> [] then Some t else None),
       checksum = (case cksum of
                     Some c \<Rightarrow> c
                   | None \<Rightarrow> zero_digest) \<rparr>"

definition delta_string_keys :: "representation \<Rightarrow> failure + key list" where
  "delta_string_keys rep =
     (case contents rep of
        Fulltext _ \<Rightarrow>
          Inl (Svn_error FS_GENERAL (''delta_string_key: representation is not of type `delta'' @ [CHR 0x27]))
      | Delta chunks \<Rightarrow> Inr (map string_key chunks))"

fun delete_strings :: "key list \<Rightarrow> svn_fs \<Rightarrow> (failure + unit) \<times> svn_fs" where
  "delete_strings [] fs = (Inr (), fs)"
| "delete_strings (str_key # keys) fs =
     (case svn_fs__bdb_string_delete fs str_key of
        (Inl e, fs') \<Rightarrow> (Inl e, fs')
      | (Inr _, fs') \<Rightarrow> delete_strings keys fs')"

subsection \<open>Mutable representations\<close>

definition svn_fs__get_mutable_rep :: "key option \<Rightarrow> svn_fs \<Rightarrow> string \<Rightarrow> (failure + key) \<times> svn_fs" where
  "svn_fs__get_mutable_rep rep_k fs txn =
     (let fresh =
        (let (new_str, fs1) = svn_fs__bdb_string_append fs None [];
             rep = make_fulltext_rep (Some new_str) (Some txn) (Some svn_md5_empty_string_digest);
             (new_rep_key, fs2) = svn_fs__bdb_write_new_rep fs1 rep
         in (Inr new_rep_key, fs2))
      in
      case rep_k of
        None \<Rightarrow> fresh
      | Some k \<Rightarrow>
          if k \<noteq> [] then
            (case svn_fs__bdb_read_rep fs k of
               Inl e \<Rightarrow> (Inl e, fs)
             | Inr rep \<Rightarrow> if rep_is_mutable rep txn then (Inr k, fs) else fresh)
          else fresh)"

subsection \<open>Writing\<close>

text \<open>
  \<^verbatim>\<open>rep_write\<close>. For a representation that is not mutable the source builds the
  error with \<^verbatim>\<open>svn_error_createf\<close> and does not return it: the statement has no effect
  on the control flow, and the function goes on to the test of the kind.
\<close>

definition rep_write :: "svn_fs \<Rightarrow> key \<Rightarrow> byte list \<Rightarrow> string \<Rightarrow> (failure + unit) \<times> svn_fs" where
  "rep_write fs k buf txn =
     (case svn_fs__bdb_read_rep fs k of
        Inl e \<Rightarrow> (Inl e, fs)
      | Inr rep \<Rightarrow>
          (let discarded =
             (if \<not> rep_is_mutable rep txn
              then Some (Svn_error FS_REP_NOT_MUTABLE
                          (''rep_write: rep \"'' @ k @ ''\" is not mutable''))
              else None)
           in
           case contents rep of
             Fulltext sk \<Rightarrow>
               (let (_, fs') = svn_fs__bdb_string_append fs sk buf in (Inr (), fs'))
           | Delta chunks \<Rightarrow>
               (Inl (Svn_error FS_CORRUPT
                      (''rep_write: rep \"'' @ k @ ''\" both mutable and non-fulltext'')), fs)))"

subsection \<open>Delta windows and the delta library\<close>

text \<open>
  \<^verbatim>\<open>svn_txdelta_op_t\<close> and \<^verbatim>\<open>svn_txdelta_window_t\<close> (svn_delta.h) are not among
  the sources. Modelled from the spec: a window has a source view, a target view length,
  a count of source-copy instructions and an instruction stream.
\<close>

datatype action_code = Txdelta_source | Txdelta_target | Txdelta_new

record txdelta_op =
  op_action :: action_code
  op_offset :: nat
  op_length :: nat

record window =
  sview_offset :: nat
  sview_len :: nat
  tview_len :: nat
  src_ops :: nat
  ops :: "txdelta_op list"
  new_data :: "byte list"

text \<open>\<^verbatim>\<open>svn_txdelta__compose_ctx_t\<close> (libsvn_delta/delta.h), as \<^verbatim>\<open>compose_handler\<close> reads it.\<close>

record compose_ctx =
  use_second :: bool
  ctx_sview_offset :: nat
  ctx_sview_len :: nat

text \<open>
  The functions of libsvn_delta and of APR that the file calls are not among the sources;
  the spec treats them as an oracle. They are the fields of a record that every function
  below takes as its first argument, so that a theorem holds for every delta library.
  \<^item> \<open>apr_md5\<close>: the MD5 digest of the bytes fed to a context.
  \<^item> \<open>parse_svndiff\<close>: the windows that \<^verbatim>\<open>svn_txdelta_parse_svndiff\<close> hands to its
    window handler for a stream of svndiff bytes (before the \<^verbatim>\<open>NULL\<close> window with which it
    closes), or its error.
  \<^item> \<open>compose_windows\<close>: \<^verbatim>\<open>svn_txdelta__compose_windows\<close>, the composite window or
    \<^verbatim>\<open>NULL\<close>, and the context it fills.
  \<^item> \<open>apply_instructions\<close>: \<^verbatim>\<open>svn_txdelta__apply_instructions\<close>, the bytes written to
    the target buffer for a window, a source buffer and the length of the target buffer.
  \<^item> \<open>compute_window\<close>: the window that \<^verbatim>\<open>svn_txdelta_next_window\<close> computes for
    a chunk of source data at an offset and a chunk of target data.
  \<^item> \<open>svndiff_version\<close> and \<open>encode_window\<close>: the version byte of the header and the
    sequence of writes that the handler of \<^verbatim>\<open>svn_txdelta_to_svndiff\<close> sends for a window.
  \<^item> \<open>stream_chunk_size\<close> and \<open>max_object_size\<close>: the constants
    \<^verbatim>\<open>SVN_STREAM_CHUNK_SIZE\<close> and \<^verbatim>\<open>SVN_MAX_OBJECT_SIZE\<close>.
\<close>

record delta_lib =
  apr_md5 :: "byte list \<Rightarrow> digest"
  parse_svndiff :: "byte list \<Rightarrow> failure + window list"
  compose_windows :: "window option \<Rightarrow> window \<Rightarrow> window option \<times> compose_ctx"
  apply_instructions :: "window \<Rightarrow> byte list \<Rightarrow> nat \<Rightarrow> byte list"
  compute_window :: "byte list \<Rightarrow> nat \<Rightarrow> byte list \<Rightarrow> window"
  svndiff_version :: byte
  encode_window :: "window \<Rightarrow> byte list list"
  stream_chunk_size :: nat
  max_object_size :: nat

text \<open>
  \<^verbatim>\<open>svn_md5_digest_to_cstring\<close> (svn_md5.h) is not among the sources: the digest in
  hexadecimal.
\<close>

definition svn_md5_digest_to_cstring :: "digest \<Rightarrow> string" where
  "svn_md5_digest_to_cstring d =
     concat (map (\<lambda>b. [''0123456789abcdef'' ! (unat b div 16),
                        ''0123456789abcdef'' ! (unat b mod 16)]) d)"

subsection \<open>Reading the contents from a representation\<close>

record compose_handler_baton =
  cb_window :: "window option"
  cb_done :: bool
  cb_init :: bool

definition compose_handler ::
  "delta_lib \<Rightarrow> window option \<Rightarrow> compose_handler_baton \<Rightarrow> failure + compose_handler_baton" where
  "compose_handler lib win cb =
     (if \<not> (\<not> cb_done cb \<or> win = None) then Inl Abort
      else if \<not> cb_init cb \<and> win = None then Inr cb
      else
        (case cb_window cb of
           Some cw \<Rightarrow>
             (case compose_windows lib win cw of
                (Some composite, ctx) \<Rightarrow>
                  Inr (cb\<lparr>cb_window := Some composite, cb_init := False\<rparr>)
              | (None, ctx) \<Rightarrow>
                  if use_second ctx then
                    Inr (cb\<lparr>cb_window := Some (cw\<lparr>sview_offset := ctx_sview_offset ctx,
                                                   sview_len := ctx_sview_len ctx\<rparr>),
                            cb_done := True, cb_init := False\<rparr>)
                  else Inl Abort)
         | None \<Rightarrow>
             (case win of
                Some w \<Rightarrow>
                  Inr (cb\<lparr>cb_window := Some w,
                          cb_done := (sview_len w = 0 \<or> src_ops w = 0),
                          cb_init := False\<rparr>)
              | None \<Rightarrow> Inr (cb\<lparr>cb_done := True, cb_init := False\<rparr>))))"

text \<open>
  The windows of one svndiff stream, handed to \<^verbatim>\<open>compose_handler\<close> one after the
  other: the call-backs of the parser.
\<close>

fun push_windows ::
  "delta_lib \<Rightarrow> window option list \<Rightarrow> compose_handler_baton \<Rightarrow> failure + compose_handler_baton" where
  "push_windows lib [] cb = Inr cb"
| "push_windows lib (w # ws) cb =
     (case compose_handler lib w cb of
        Inl e \<Rightarrow> Inl e
      | Inr cb' \<Rightarrow> push_windows lib ws cb')"

text \<open>
  The \<^verbatim>\<open>do ... while (amt != 0)\<close> loop of \<^verbatim>\<open>get_one_window\<close>: the string is read in
  hunks of 4096 bytes from offset \<open>off\<close> on, each written to the svndiff stream, until a
  read returns no bytes. The result is what the stream has received.
\<close>

function read_hunks :: "svn_fs \<Rightarrow> key \<Rightarrow> nat \<Rightarrow> failure + byte list" where
  "read_hunks fs str_key off =
     (case svn_fs__bdb_string_read fs str_key off 4096 of
        Inl e \<Rightarrow> Inl e
      | Inr diffdata \<Rightarrow>
          if length diffdata \<noteq> 0 then
            (case read_hunks fs str_key (off + length diffdata) of
               Inl e \<Rightarrow> Inl e
             | Inr rest \<Rightarrow> Inr (diffdata @ rest))
          else Inr [])"
  by pat_completeness auto
termination
  by (relation "measure (\<lambda>(fs, str_key, off).
        (case strings fs str_key of None \<Rightarrow> 0 | Some s \<Rightarrow> length s - off))")
     (auto simp: svn_fs__bdb_string_read_def split: option.splits)

declare read_hunks.simps [simp del]

text \<open>
  \<^verbatim>\<open>get_one_window\<close>. Modelled from the spec: the parser emits the windows of the
  stream into the composition handler, and a \<^verbatim>\<open>NULL\<close> window when the stream is closed.
\<close>

definition get_one_window ::
  "delta_lib \<Rightarrow> compose_handler_baton \<Rightarrow> svn_fs \<Rightarrow> representation \<Rightarrow> nat
     \<Rightarrow> failure + compose_handler_baton" where
  "get_one_window lib cb fs rep cur_chunk =
     (case contents rep of
        Fulltext _ \<Rightarrow> Inl Abort
      | Delta chunks \<Rightarrow>
          (let cb1 = cb\<lparr>cb_init := True\<rparr> in
           if length chunks \<le> cur_chunk then compose_handler lib None cb1
           else
             (let first_chunk = chunks ! 0;
                  header = [0x53, 0x56, 0x4E, version first_chunk];
                  this_chunk = chunks ! cur_chunk;
                  str_key = string_key this_chunk
              in
              case read_hunks fs str_key 0 of
                Inl e \<Rightarrow> Inl e
              | Inr diffdata \<Rightarrow>
                  (case parse_svndiff lib (header @ diffdata) of
                     Inl e \<Rightarrow> Inl e
                   | Inr wins \<Rightarrow>
                       (case push_windows lib (map Some wins @ [None]) cb1 of
                          Inl e \<Rightarrow> Inl e
                        | Inr cb2 \<Rightarrow>
                            if cb_init cb2 then Inl Abort
                            else if cb_window cb2 = None then Inl Abort
                            else Inr cb2)))))"

text \<open>
  The \<^verbatim>\<open>for\<close> loop of \<^verbatim>\<open>rep_undeltify_range\<close> over the representations of
  \<open>deltas\<close>, which stops as soon as the baton is done.
\<close>

fun get_windows ::
  "delta_lib \<Rightarrow> svn_fs \<Rightarrow> nat \<Rightarrow> compose_handler_baton \<Rightarrow> representation list
     \<Rightarrow> failure + compose_handler_baton" where
  "get_windows lib fs cur_chunk cb [] = Inr cb"
| "get_windows lib fs cur_chunk cb (rep # deltas) =
     (if cb_done cb then Inr cb
      else
        (case get_one_window lib cb fs rep cur_chunk of
           Inl e \<Rightarrow> Inl e
         | Inr cb' \<Rightarrow> get_windows lib fs cur_chunk cb' deltas))"

text \<open>
  One pass through the body of the \<^verbatim>\<open>do\<close> loop of \<^verbatim>\<open>rep_undeltify_range\<close>, for the
  chunk \<open>cur_chunk\<close>, the offset \<open>offset\<close> into it and \<open>want = *len - len_read\<close> bytes
  still wanted. \<open>None\<close> is the \<^verbatim>\<open>break\<close> (no window: no more source data); otherwise
  the result is the bytes the pass copies into \<^verbatim>\<open>buf\<close>.
\<close>

definition undeltify_chunk ::
  "delta_lib \<Rightarrow> svn_fs \<Rightarrow> representation list \<Rightarrow> representation option \<Rightarrow> nat \<Rightarrow> nat \<Rightarrow> nat
     \<Rightarrow> failure + byte list option" where
  "undeltify_chunk lib fs deltas fulltext cur_chunk offset want =
     (case get_windows lib fs cur_chunk
             \<lparr>cb_window = None, cb_done = False, cb_init = False\<rparr> deltas of
        Inl e \<Rightarrow> Inl e
      | Inr cb \<Rightarrow>
          (case cb_window cb of
             None \<Rightarrow> Inr None
           | Some w \<Rightarrow>
               if \<not> (sview_len w > 0 \<or> src_ops w = 0) then Inl Abort
               else
                 (case (case fulltext of
                          Some ft \<Rightarrow>
                            if sview_len w > 0 \<and> src_ops w > 0 then
                              (case contents ft of
                                 Fulltext (Some str_key) \<Rightarrow>
                                   (case svn_fs__bdb_string_read fs str_key
                                           (sview_offset w) (sview_len w) of
                                      Inl e \<Rightarrow> Inl e
                                    | Inr source_buf \<Rightarrow>
                                        if length source_buf = sview_len w then Inr source_buf
                                        else Inl Abort)
                               | _ \<Rightarrow> Inl Abort)
                            else Inr []
                        | None \<Rightarrow> Inr []) of
                    Inl e \<Rightarrow> Inl e
                  | Inr source_buf \<Rightarrow>
                      (let target_buf = apply_instructions lib w source_buf (want + offset) in
                       if offset > 0 then
                         (if \<not> (length target_buf > offset) then Inl Abort
                          else Inr (Some (drop offset target_buf)))
                       else Inr (Some target_buf)))))"

text \<open>The chunks of a delta representation: \<^verbatim>\<open>rep->contents.delta.chunks\<close>.\<close>

definition delta_chunks :: "representation \<Rightarrow> delta_chunk list" where
  "delta_chunks rep = (case contents rep of Delta chunks \<Rightarrow> chunks | Fulltext _ \<Rightarrow> [])"

lemma compose_handler_null_first:
  "compose_handler lib None \<lparr>cb_window = None, cb_done = False, cb_init = True\<rparr>
     = Inr \<lparr>cb_window = None, cb_done = True, cb_init = False\<rparr>"
  by (simp add: compose_handler_def)

lemma get_windows_done:
  "cb_done cb \<Longrightarrow> get_windows lib fs cur_chunk cb deltas = Inr cb"
  by (cases deltas) simp_all

lemma get_windows_window_chunk:
  assumes "get_windows lib fs cur_chunk \<lparr>cb_window = None, cb_done = False, cb_init = False\<rparr> deltas
             = Inr cb"
    and "cb_window cb = Some w"
  shows "\<exists>rep rest. deltas = rep # rest \<and> cur_chunk < length (delta_chunks rep)"
proof (cases deltas)
  case Nil
  with assms show ?thesis by auto
next
  case (Cons rep rest)
  have "cur_chunk < length (delta_chunks rep)"
  proof (rule ccontr)
    assume short: "\<not> cur_chunk < length (delta_chunks rep)"
    show False
    proof (cases "contents rep")
      case (Fulltext sk)
      with assms Cons show False by (simp add: get_one_window_def)
    next
      case (Delta chunks)
      with short have "length chunks \<le> cur_chunk" by (simp add: delta_chunks_def)
      with Delta have "get_one_window lib \<lparr>cb_window = None, cb_done = False, cb_init = False\<rparr>
                         fs rep cur_chunk
                       = Inr \<lparr>cb_window = None, cb_done = True, cb_init = False\<rparr>"
        by (simp add: get_one_window_def compose_handler_null_first)
      with assms Cons show False by (auto simp: get_windows_done)
    qed
  qed
  with Cons show ?thesis by simp
qed

lemma undeltify_chunk_some:
  assumes "undeltify_chunk lib fs deltas fulltext cur_chunk offset want = Inr (Some target)"
  shows "\<exists>rep rest. deltas = rep # rest \<and> cur_chunk < length (delta_chunks rep)"
proof -
  from assms obtain cb w where
    "get_windows lib fs cur_chunk \<lparr>cb_window = None, cb_done = False, cb_init = False\<rparr> deltas
       = Inr cb" and "cb_window cb = Some w"
    by (auto simp: undeltify_chunk_def split: sum.splits option.splits)
  then show ?thesis by (rule get_windows_window_chunk)
qed

text \<open>
  The \<^verbatim>\<open>do ... while (len_read < *len)\<close> loop of \<^verbatim>\<open>rep_undeltify_range\<close>. The
  result is the bytes copied into \<^verbatim>\<open>buf\<close> from this pass on; their number is what is
  added to \<^verbatim>\<open>len_read\<close>.
\<close>

function undeltify_loop ::
  "delta_lib \<Rightarrow> svn_fs \<Rightarrow> representation list \<Rightarrow> representation option \<Rightarrow> nat \<Rightarrow> nat \<Rightarrow> nat
     \<Rightarrow> nat \<Rightarrow> failure + byte list" where
  "undeltify_loop lib fs deltas fulltext cur_chunk offset len len_read =
     (case undeltify_chunk lib fs deltas fulltext cur_chunk offset (len - len_read) of
        Inl e \<Rightarrow> Inl e
      | Inr r \<Rightarrow>
          (case r of
             None \<Rightarrow> Inr []
           | Some target \<Rightarrow>
               if len_read + length target < len then
                 (case undeltify_loop lib fs deltas fulltext (Suc cur_chunk) 0 len
                         (len_read + length target) of
                    Inl e \<Rightarrow> Inl e
                  | Inr rest \<Rightarrow> Inr (target @ rest))
               else Inr target))"
  by pat_completeness auto
termination
proof (relation "measure (\<lambda>(lib, fs, deltas, fulltext, cur_chunk, offset, len, len_read).
          (case deltas of [] \<Rightarrow> 0 | rep # _ \<Rightarrow> length (delta_chunks rep) - cur_chunk))")
  show "wf (measure (\<lambda>(lib, fs, deltas, fulltext, cur_chunk, offset, len, len_read).
          (case deltas of [] \<Rightarrow> 0 | rep # _ \<Rightarrow> length (delta_chunks rep) - cur_chunk)))"
    by simp
next
  fix lib :: delta_lib and fs deltas fulltext cur_chunk offset len len_read r target
  assume "undeltify_chunk lib fs deltas fulltext cur_chunk offset (len - len_read) = Inr r"
    and "r = Some target"
  then obtain rep rest where "deltas = rep # rest" and "cur_chunk < length (delta_chunks rep)"
    using undeltify_chunk_some by blast
  then show "((lib, fs, deltas, fulltext, Suc cur_chunk, 0, len, len_read + length target),
              (lib, fs, deltas, fulltext, cur_chunk, offset, len, len_read))
             \<in> measure (\<lambda>(lib, fs, deltas, fulltext, cur_chunk, offset, len, len_read).
                 (case deltas of [] \<Rightarrow> 0 | rep # _ \<Rightarrow> length (delta_chunks rep) - cur_chunk))"
    by simp
qed

declare undeltify_loop.simps [simp del]

definition rep_undeltify_range ::
  "delta_lib \<Rightarrow> svn_fs \<Rightarrow> representation list \<Rightarrow> representation option \<Rightarrow> nat \<Rightarrow> nat \<Rightarrow> nat
     \<Rightarrow> failure + byte list" where
  "rep_undeltify_range lib fs deltas fulltext cur_chunk offset len =
     undeltify_loop lib fs deltas fulltext cur_chunk offset len 0"

text \<open>
  \<^verbatim>\<open>get_chunk_offset\<close>: the index of the chunk that contains \<open>rep_offset\<close> and the
  offset within it, or \<open>None\<close> where the source returns -1.
\<close>

fun chunk_search :: "delta_lib \<Rightarrow> delta_chunk list \<Rightarrow> nat \<Rightarrow> nat \<Rightarrow> failure + (nat \<times> nat) option" where
  "chunk_search lib [] cur_chunk rep_offset = Inr None"
| "chunk_search lib (this_chunk # chunks) cur_chunk rep_offset =
     (if chunk_offset this_chunk + chunk_size this_chunk > rep_offset then
        (if \<not> chunk_offset this_chunk \<le> rep_offset then Inl Abort
         else if \<not> rep_offset - chunk_offset this_chunk < max_object_size lib then Inl Abort
         else Inr (Some (cur_chunk, rep_offset - chunk_offset this_chunk)))
      else chunk_search lib chunks (Suc cur_chunk) rep_offset)"

definition get_chunk_offset :: "delta_lib \<Rightarrow> representation \<Rightarrow> nat \<Rightarrow> failure + (nat \<times> nat) option" where
  "get_chunk_offset lib rep rep_offset =
     (if delta_chunks rep = [] then Inl Abort
      else chunk_search lib (delta_chunks rep) 0 rep_offset)"

definition version_error :: "key \<Rightarrow> failure" where
  "version_error rep_k =
     Svn_error FS_CORRUPT
       (''diff version inconsistencies in representation `'' @ rep_k @ [CHR 0x27])"

text \<open>
  The \<^verbatim>\<open>do ... while\<close> loop of \<^verbatim>\<open>rep_read_range\<close> that lists the representations
  needed to undeltify the chunk \<open>cur_chunk\<close>. A chain of representations may be cyclic,
  and then the loop does not end: \<open>fuel\<close> bounds the passes through the body, and the
  result is \<open>None\<close> when they do not suffice. The result is the list \<^verbatim>\<open>reps\<close> and the
  representation read last. The loop is entered and repeated only with a delta
  representation that has a chunk \<open>cur_chunk\<close>; the first test makes a read outside
  the array of chunks a failure.
\<close>

fun collect_reps ::
  "nat \<Rightarrow> svn_fs \<Rightarrow> key \<Rightarrow> representation \<Rightarrow> nat
     \<Rightarrow> (failure + representation list \<times> representation) option" where
  "collect_reps 0 fs rep_k rep cur_chunk = None"
| "collect_reps (Suc fuel) fs rep_k rep cur_chunk =
     (let first_chunk = delta_chunks rep ! 0;
          chunk = delta_chunks rep ! cur_chunk
      in
      if length (delta_chunks rep) \<le> cur_chunk then Some (Inl Abort)
      else if version first_chunk \<noteq> version chunk then Some (Inl (version_error rep_k))
      else
        (case svn_fs__bdb_read_rep fs (rep_key chunk) of
           Inl e \<Rightarrow> Some (Inl e)
         | Inr rep' \<Rightarrow>
             if (case contents rep' of Delta chunks' \<Rightarrow> length chunks' > cur_chunk
                                     | Fulltext _ \<Rightarrow> False)
             then
               (case collect_reps fuel fs (rep_key chunk) rep' cur_chunk of
                  None \<Rightarrow> None
                | Some (Inl e) \<Rightarrow> Some (Inl e)
                | Some (Inr (deltas, final)) \<Rightarrow> Some (Inr (rep # deltas, final)))
             else Some (Inr ([rep], rep'))))"

definition rep_read_range ::
  "delta_lib \<Rightarrow> nat \<Rightarrow> svn_fs \<Rightarrow> key \<Rightarrow> nat \<Rightarrow> nat \<Rightarrow> (failure + byte list) option" where
  "rep_read_range lib fuel fs rep_k offset len =
     (case svn_fs__bdb_read_rep fs rep_k of
        Inl e \<Rightarrow> Some (Inl e)
      | Inr rep \<Rightarrow>
          (case contents rep of
             Fulltext sk \<Rightarrow>
               (case sk of
                  None \<Rightarrow> Some (Inl Abort)
                | Some str_key \<Rightarrow> Some (svn_fs__bdb_string_read fs str_key offset len))
           | Delta chunks \<Rightarrow>
               (case get_chunk_offset lib rep offset of
                  Inl e \<Rightarrow> Some (Inl e)
                | Inr None \<Rightarrow> Some (Inr [])
                | Inr (Some (cur_chunk, chunk_off)) \<Rightarrow>
                    (case collect_reps fuel fs rep_k rep cur_chunk of
                       None \<Rightarrow> None
                     | Some (Inl e) \<Rightarrow> Some (Inl e)
                     | Some (Inr (deltas, final)) \<Rightarrow>
                         Some (rep_undeltify_range lib fs deltas
                                 (case contents final of Delta _ \<Rightarrow> None | Fulltext _ \<Rightarrow> Some final)
                                 cur_chunk chunk_off len)))))"

text \<open>
  The representations that the loop of \<^verbatim>\<open>rep_read_range\<close> passes through for the
  chunk \<open>cur_chunk\<close>: \<open>traversed fs cur_chunk n k rep k' rep'\<close> when the loop, started
  with the representation \<open>rep\<close> of key \<open>k\<close>, begins its pass number \<open>n\<close> (from 0)
  with the representation \<open>rep'\<close> of key \<open>k'\<close>. Each earlier pass has found equal
  versions, and a source that is a delta with a chunk \<open>cur_chunk\<close>.
\<close>

inductive traversed :: "svn_fs \<Rightarrow> nat \<Rightarrow> nat \<Rightarrow> key \<Rightarrow> representation \<Rightarrow> key \<Rightarrow> representation \<Rightarrow> bool"
  for fs :: svn_fs and cur_chunk :: nat where
  traversed_here: "traversed fs cur_chunk 0 k rep k rep"
| traversed_next:
    "\<lbrakk> version (delta_chunks rep ! 0) = version (delta_chunks rep ! cur_chunk);
       reps fs (rep_key (delta_chunks rep ! cur_chunk)) = Some rep1;
       cur_chunk < length (delta_chunks rep1);
       traversed fs cur_chunk n (rep_key (delta_chunks rep ! cur_chunk)) rep1 k' rep' \<rbrakk>
     \<Longrightarrow> traversed fs cur_chunk (Suc n) k rep k' rep'"

subsection \<open>Retrieving data\<close>

definition svn_fs__rep_contents_size :: "svn_fs \<Rightarrow> key \<Rightarrow> failure + nat" where
  "svn_fs__rep_contents_size fs rep_k =
     (case svn_fs__bdb_read_rep fs rep_k of
        Inl e \<Rightarrow> Inl e
      | Inr rep \<Rightarrow>
          (case contents rep of
             Fulltext sk \<Rightarrow>
               (case sk of
                  None \<Rightarrow> Inl Abort
                | Some str_key \<Rightarrow> svn_fs__bdb_string_size fs str_key)
           | Delta chunks \<Rightarrow>
               if chunks = [] then Inl Abort
               else
                 (let last_chunk = chunks ! (length chunks - 1)
                  in Inr (chunk_offset last_chunk + chunk_size last_chunk))))"

definition svn_fs__rep_contents_checksum :: "svn_fs \<Rightarrow> key \<Rightarrow> failure + digest" where
  "svn_fs__rep_contents_checksum fs rep_k =
     (case svn_fs__bdb_read_rep fs rep_k of
        Inl e \<Rightarrow> Inl e
      | Inr rep \<Rightarrow> Inr (checksum rep))"

definition checksum_mismatch :: "string \<Rightarrow> key \<Rightarrow> digest \<Rightarrow> digest \<Rightarrow> failure" where
  "checksum_mismatch who rep_k expected actual =
     Svn_error FS_CORRUPT
       (who @ '': checksum mismatch on rep \"'' @ rep_k @ ''\":'' @ [CHR 0x0A]
          @ ''   expected:  '' @ svn_md5_digest_to_cstring expected @ [CHR 0x0A]
          @ ''     actual:  '' @ svn_md5_digest_to_cstring actual @ [CHR 0x0A])"

definition svn_fs__rep_contents ::
  "delta_lib \<Rightarrow> nat \<Rightarrow> svn_fs \<Rightarrow> key \<Rightarrow> (failure + byte list) option" where
  "svn_fs__rep_contents lib fuel fs rep_k =
     (case svn_fs__rep_contents_size fs rep_k of
        Inl e \<Rightarrow> Some (Inl e)
      | Inr contents_size \<Rightarrow>
          if contents_size > max_object_size lib then
            Some (Inl (Svn_error FS_GENERAL
                    (''svn_fs__rep_contents: rep contents are too large (got ''
                       @ decimal contents_size @ '', limit is ''
                       @ decimal (max_object_size lib) @ '')'')))
          else
            (case rep_read_range lib fuel fs rep_k 0 contents_size of
               None \<Rightarrow> None
             | Some (Inl e) \<Rightarrow> Some (Inl e)
             | Some (Inr data) \<Rightarrow>
                 if length data \<noteq> contents_size then
                   Some (Inl (Svn_error FS_CORRUPT
                           (''svn_fs__rep_contents: failure reading rep \"'' @ rep_k @ ''\"'')))
                 else
                   (let cksum = apr_md5 lib data in
                    case svn_fs__bdb_read_rep fs rep_k of
                      Inl e \<Rightarrow> Some (Inl e)
                    | Inr rep \<Rightarrow>
                        if \<not> svn_md5_digests_match cksum (checksum rep) then
                          Some (Inl (checksum_mismatch ''svn_fs__rep_contents'' rep_k
                                       (checksum rep) cksum))
                        else Some (Inr data))))"

subsection \<open>The read stream\<close>

text \<open>
  \<^verbatim>\<open>struct rep_read_baton\<close>. An MD5 context is the list of the bytes fed to it so far;
  \<^verbatim>\<open>apr_md5_final\<close> is \<open>apr_md5\<close> of that list.
\<close>

record rep_read_baton =
  rb_rep_key :: "key option"
  rb_offset :: nat
  rb_md5_context :: "byte list"
  rb_size :: nat
  rb_checksum_finalized :: bool

definition rep_read_get_baton :: "svn_fs \<Rightarrow> key option \<Rightarrow> failure + rep_read_baton" where
  "rep_read_get_baton fs rep_k =
     (case (case rep_k of
              Some k \<Rightarrow> svn_fs__rep_contents_size fs k
            | None \<Rightarrow> Inr 0) of
        Inl e \<Rightarrow> Inl e
      | Inr sz \<Rightarrow>
          Inr \<lparr> rb_rep_key = rep_k, rb_offset = 0, rb_md5_context = [], rb_size = sz,
                rb_checksum_finalized = False \<rparr>)"

text \<open>
  \<^verbatim>\<open>txn_body_read_rep\<close>: a read of up to \<open>len\<close> bytes. The result is the bytes read
  and the baton as the call leaves it, also when the call fails.
\<close>

definition txn_body_read_rep ::
  "delta_lib \<Rightarrow> nat \<Rightarrow> svn_fs \<Rightarrow> rep_read_baton \<Rightarrow> nat
     \<Rightarrow> ((failure + byte list) \<times> rep_read_baton) option" where
  "txn_body_read_rep lib fuel fs rb len =
     (case rb_rep_key rb of
        Some rep_k \<Rightarrow>
          (case rep_read_range lib fuel fs rep_k (rb_offset rb) len of
             None \<Rightarrow> None
           | Some (Inl e) \<Rightarrow> Some (Inl e, rb)
           | Some (Inr buf) \<Rightarrow>
               (let rb1 = rb\<lparr>rb_offset := rb_offset rb + length buf\<rparr> in
                if \<not> rb_checksum_finalized rb1 then
                  (let rb2 = rb1\<lparr>rb_md5_context := rb_md5_context rb1 @ buf\<rparr> in
                   if rb_offset rb2 = rb_size rb2 then
                     (let cksum = apr_md5 lib (rb_md5_context rb2);
                          rb3 = rb2\<lparr>rb_checksum_finalized := True\<rparr>
                      in
                      case svn_fs__bdb_read_rep fs rep_k of
                        Inl e \<Rightarrow> Some (Inl e, rb3)
                      | Inr rep \<Rightarrow>
                          if \<not> svn_md5_digests_match cksum (checksum rep) then
                            Some (Inl (checksum_mismatch ''txn_body_read_rep'' rep_k
                                         (checksum rep) cksum), rb3)
                          else Some (Inr buf, rb3))
                   else Some (Inr buf, rb2))
                else Some (Inr buf, rb1)))
      | None \<Rightarrow>
          if rb_offset rb > 0 then
            Some (Inl (Svn_error FS_REP_CHANGED
                         ''txn_body_read_rep: null rep, but offset past zero already''), rb)
          else Some (Inr [], rb))"

text \<open>
  \<^verbatim>\<open>rep_read_contents\<close>, the read function of the stream: with a trail it calls
  \<^verbatim>\<open>txn_body_read_rep\<close> in it, without one it runs the same body in a trail of its own
  (\<^verbatim>\<open>svn_fs__retry_txn\<close>, which is not modelled).
\<close>

definition rep_read_contents ::
  "delta_lib \<Rightarrow> nat \<Rightarrow> svn_fs \<Rightarrow> rep_read_baton \<Rightarrow> nat
     \<Rightarrow> ((failure + byte list) \<times> rep_read_baton) option" where
  "rep_read_contents lib fuel fs rb len = txn_body_read_rep lib fuel fs rb len"

definition svn_fs__rep_contents_read_stream :: "svn_fs \<Rightarrow> key option \<Rightarrow> failure + rep_read_baton" where
  "svn_fs__rep_contents_read_stream fs rep_k = rep_read_get_baton fs rep_k"

subsection \<open>Deltified storage\<close>

text \<open>\<^verbatim>\<open>write_string\<close>: the write function of a stream that appends to one string.\<close>

definition write_string :: "svn_fs \<Rightarrow> key option \<Rightarrow> byte list \<Rightarrow> key \<times> svn_fs" where
  "write_string fs wb_k data = svn_fs__bdb_string_append fs wb_k data"

text \<open>
  \<^verbatim>\<open>struct write_svndiff_strings_baton\<close>. The source leaves \<^verbatim>\<open>version\<close>
  uninitialised until the fourth byte of the header has been seen; here it starts as 0.
\<close>

record write_svndiff_strings_baton =
  wb_key :: "key option"
  wb_size :: nat
  wb_header_read :: nat
  wb_version :: byte

text \<open>
  \<^verbatim>\<open>write_svndiff_strings\<close>. When fewer bytes arrive than the header still lacks,
  \<^verbatim>\<open>*len -= nheader\<close> wraps around and the append reads far beyond the data (the case
  the source's comment warns of): the failure \<open>Abort\<close>.
\<close>

definition write_svndiff_strings ::
  "svn_fs \<Rightarrow> write_svndiff_strings_baton \<Rightarrow> byte list
     \<Rightarrow> (failure + unit) \<times> write_svndiff_strings_baton \<times> svn_fs" where
  "write_svndiff_strings fs wb data =
     (let nheader = (if wb_header_read wb < 4 then 4 - wb_header_read wb else 0) in
      if length data < nheader then (Inl Abort, wb, fs)
      else
        (let buf = drop nheader data;
             wb1 = (if wb_header_read wb < 4 then
                      (let wb' = wb\<lparr>wb_header_read := wb_header_read wb + nheader\<rparr> in
                       if wb_header_read wb' = 4
                       then wb'\<lparr>wb_version := data ! (nheader - 1)\<rparr> else wb')
                    else wb);
             (k, fs') = svn_fs__bdb_string_append fs (wb_key wb1) buf;
             wb2 = wb1\<lparr>wb_key := Some k\<rparr>
         in (Inr (), wb2\<lparr>wb_size := wb_size wb2 + (length buf + nheader)\<rparr>, fs')))"

fun write_all ::
  "svn_fs \<Rightarrow> write_svndiff_strings_baton \<Rightarrow> byte list list
     \<Rightarrow> (failure + unit) \<times> write_svndiff_strings_baton \<times> svn_fs" where
  "write_all fs wb [] = (Inr (), wb, fs)"
| "write_all fs wb (data # datas) =
     (case write_svndiff_strings fs wb data of
        (Inl e, wb', fs') \<Rightarrow> (Inl e, wb', fs')
      | (Inr _, wb', fs') \<Rightarrow> write_all fs' wb' datas)"

text \<open>
  Modelled from the spec: the handler that \<^verbatim>\<open>svn_txdelta_to_svndiff\<close> returns
  (libsvn_delta/svndiff.c) is not among the sources. On its first call it writes the magic
  header \<open>SVN\<close> and the version byte; for a window it writes the window's svndiff bytes;
  for the \<^verbatim>\<open>NULL\<close> window it writes nothing more. \<open>header_done\<close> is its state.
\<close>

definition new_target_handler ::
  "delta_lib \<Rightarrow> bool \<Rightarrow> window option \<Rightarrow> svn_fs \<Rightarrow> write_svndiff_strings_baton
     \<Rightarrow> (failure + unit) \<times> write_svndiff_strings_baton \<times> svn_fs" where
  "new_target_handler lib header_done win fs wb =
     write_all fs wb
       ((if header_done then [] else [[0x53, 0x56, 0x4E, svndiff_version lib]])
          @ (case win of None \<Rightarrow> [] | Some w \<Rightarrow> encode_window lib w))"

text \<open>
  Modelled from the spec: the binary-diff producer \<^verbatim>\<open>svn_txdelta\<close> and
  \<^verbatim>\<open>svn_txdelta_next_window\<close> (libsvn_delta/text_delta.c) are not among the sources.
  For each window the producer reads one chunk of the source stream and one chunk of the
  target stream. No target data ends the stream: the MD5 context of the target data is
  finalised and the window is \<^verbatim>\<open>NULL\<close>. \<^verbatim>\<open>svn_txdelta_md5_digest\<close> is the field
  \<open>ts_digest\<close>.
\<close>

record txdelta_stream =
  ts_source :: rep_read_baton
  ts_target :: rep_read_baton
  ts_more :: bool
  ts_pos :: nat
  ts_context :: "byte list"
  ts_digest :: "digest option"

definition svn_txdelta :: "rep_read_baton \<Rightarrow> rep_read_baton \<Rightarrow> txdelta_stream" where
  "svn_txdelta source target =
     \<lparr> ts_source = source, ts_target = target, ts_more = True, ts_pos = 0,
       ts_context = [], ts_digest = None \<rparr>"

definition svn_txdelta_next_window ::
  "delta_lib \<Rightarrow> nat \<Rightarrow> svn_fs \<Rightarrow> txdelta_stream
     \<Rightarrow> ((failure + window option) \<times> txdelta_stream) option" where
  "svn_txdelta_next_window lib fuel fs stream =
     (if \<not> ts_more stream then Some (Inr None, stream)
      else
        (case rep_read_contents lib fuel fs (ts_source stream) (stream_chunk_size lib) of
           None \<Rightarrow> None
         | Some (Inl e, rb) \<Rightarrow> Some (Inl e, stream\<lparr>ts_source := rb\<rparr>)
         | Some (Inr source_data, rb) \<Rightarrow>
             (let stream1 = stream\<lparr>ts_source := rb\<rparr> in
              case rep_read_contents lib fuel fs (ts_target stream1) (stream_chunk_size lib) of
                None \<Rightarrow> None
              | Some (Inl e, rb') \<Rightarrow> Some (Inl e, stream1\<lparr>ts_target := rb'\<rparr>)
              | Some (Inr target_data, rb') \<Rightarrow>
                  (let stream2 = stream1\<lparr>ts_target := rb',
                                         ts_pos := ts_pos stream1 + length source_data\<rparr>
                   in
                   if length target_data = 0 then
                     Some (Inr None,
                           stream2\<lparr>ts_digest := Some (apr_md5 lib (ts_context stream2)),
                                   ts_more := False\<rparr>)
                   else
                     Some (Inr (Some (compute_window lib source_data
                                        (ts_pos stream2 - length source_data) target_data)),
                           stream2\<lparr>ts_context := ts_context stream2 @ target_data\<rparr>)))))"

text \<open>\<^verbatim>\<open>window_write_t\<close>.\<close>

record window_write =
  ww_key :: "key option"
  svndiff_len :: nat
  text_off :: nat
  text_len :: nat

text \<open>
  The \<^verbatim>\<open>do ... while (window)\<close> loop of \<^verbatim>\<open>svn_fs__rep_deltify\<close>. It ends when the
  target stream has no more data; \<open>n\<close> bounds its passes, \<open>fuel\<close> those of the reads.
  The result is the array \<^verbatim>\<open>windows\<close>, \<^verbatim>\<open>diffsize\<close>, the baton of the string writer
  and the delta stream.
\<close>

fun deltify_windows ::
  "delta_lib \<Rightarrow> nat \<Rightarrow> nat \<Rightarrow> svn_fs \<Rightarrow> txdelta_stream \<Rightarrow> bool \<Rightarrow> write_svndiff_strings_baton
     \<Rightarrow> window_write list \<Rightarrow> nat \<Rightarrow> nat
     \<Rightarrow> ((failure + window_write list \<times> nat \<times> write_svndiff_strings_baton \<times> txdelta_stream)
          \<times> svn_fs) option" where
  "deltify_windows lib 0 fuel fs stream header_done wb windows tview_off diffsize = None"
| "deltify_windows lib (Suc n) fuel fs stream header_done wb windows tview_off diffsize =
     (let wb1 = wb\<lparr>wb_size := 0, wb_key := None\<rparr> in
      case svn_txdelta_next_window lib fuel fs stream of
        None \<Rightarrow> None
      | Some (Inl e, stream') \<Rightarrow> Some (Inl e, fs)
      | Some (Inr win, stream') \<Rightarrow>
          (case new_target_handler lib header_done win fs wb1 of
             (Inl e, wb2, fs') \<Rightarrow> Some (Inl e, fs')
           | (Inr _, wb2, fs') \<Rightarrow>
               (case win of
                  None \<Rightarrow> Some (Inr (windows, diffsize, wb2, stream'), fs')
                | Some w \<Rightarrow>
                    (let ww = \<lparr> ww_key = wb_key wb2, svndiff_len = wb_size wb2,
                                text_off = tview_off, text_len = tview_len w \<rparr>
                     in deltify_windows lib n fuel fs' stream' True wb2 (windows @ [ww])
                          (tview_off + tview_len w) (diffsize + svndiff_len ww)))))"

text \<open>
  The loop that deletes the strings of the windows written, when the delta does not
  save space. A window without a key is a \<^verbatim>\<open>NULL\<close> key handed to the strings table.
\<close>

fun delete_window_strings :: "window_write list \<Rightarrow> svn_fs \<Rightarrow> (failure + unit) \<times> svn_fs" where
  "delete_window_strings [] fs = (Inr (), fs)"
| "delete_window_strings (ww # windows) fs =
     (case ww_key ww of
        None \<Rightarrow> (Inl Abort, fs)
      | Some k \<Rightarrow>
          (case svn_fs__bdb_string_delete fs k of
             (Inl e, fs') \<Rightarrow> (Inl e, fs')
           | (Inr _, fs') \<Rightarrow> delete_window_strings windows fs'))"

text \<open>
  The chunks that the last loop of \<^verbatim>\<open>svn_fs__rep_deltify\<close> builds, one for each
  window; \<open>None\<close> when a window has no key (a \<^verbatim>\<open>NULL\<close> string key in a chunk).
\<close>

fun window_chunks :: "byte \<Rightarrow> digest \<Rightarrow> key \<Rightarrow> window_write list \<Rightarrow> delta_chunk list option" where
  "window_chunks ver dgst source [] = Some []"
| "window_chunks ver dgst source (ww # windows) =
     (case ww_key ww of
        None \<Rightarrow> None
      | Some k \<Rightarrow>
          (case window_chunks ver dgst source windows of
             None \<Rightarrow> None
           | Some chunks \<Rightarrow>
               Some (\<lparr> version = ver, chunk_offset = text_off ww, string_key = k,
                       chunk_size = text_len ww, chunk_checksum = dgst, rep_key = source \<rparr>
                     # chunks)))"

text \<open>
  The second half of \<^verbatim>\<open>svn_fs__rep_deltify\<close>, from the query of the digest on: the
  test of the size, the new representation and the deletion of the old strings.
\<close>

definition deltify_replace ::
  "svn_fs \<Rightarrow> key \<Rightarrow> key \<Rightarrow> window_write list \<Rightarrow> nat \<Rightarrow> byte \<Rightarrow> digest option
     \<Rightarrow> (failure + unit) \<times> svn_fs" where
  "deltify_replace fs target source windows diffsize ver dgst =
     (case dgst of
        None \<Rightarrow>
          (Inl (Svn_error DELTA_MD5_CHECKSUM_ABSENT
                  (''svn_fs__rep_deltify: failed to calculate MD5 digest for '' @ [CHR 0x27]
                     @ source @ [CHR 0x27])), fs)
      | Some d \<Rightarrow>
          (case svn_fs__bdb_read_rep fs target of
             Inl e \<Rightarrow> (Inl e, fs)
           | Inr old_rep \<Rightarrow>
               (let replace = (\<lambda>orig_str_keys.
                      case window_chunks ver d source windows of
                        None \<Rightarrow> (Inl Abort, fs)
                      | Some chunks \<Rightarrow>
                          (let new_rep = \<lparr> contents = Delta chunks, txn_id = None,
                                            checksum = checksum old_rep \<rparr>;
                               fs' = svn_fs__bdb_write_rep fs target new_rep
                           in delete_strings orig_str_keys fs'))
                in
                case contents old_rep of
                  Fulltext sk \<Rightarrow>
                    (case sk of
                       None \<Rightarrow> (Inl Abort, fs)
                     | Some str_key \<Rightarrow>
                         (case svn_fs__bdb_string_size fs str_key of
                            Inl e \<Rightarrow> (Inl e, fs)
                          | Inr old_size \<Rightarrow>
                              if diffsize \<ge> old_size then delete_window_strings windows fs
                              else replace [str_key]))
                | Delta chunks \<Rightarrow>
                    (case delta_string_keys old_rep of
                       Inl e \<Rightarrow> (Inl e, fs)
                     | Inr orig_str_keys \<Rightarrow> replace orig_str_keys))))"

definition svn_fs__rep_deltify ::
  "delta_lib \<Rightarrow> nat \<Rightarrow> svn_fs \<Rightarrow> key \<Rightarrow> key \<Rightarrow> ((failure + unit) \<times> svn_fs) option" where
  "svn_fs__rep_deltify lib fuel fs target source =
     (if target = source then
        Some (Inl (Svn_error FS_CORRUPT
                     (''svn_fs__rep_deltify: attempt to deltify \"'' @ target
                        @ ''\" against itself'')), fs)
      else
        (case svn_fs__rep_contents_read_stream fs (Some source) of
           Inl e \<Rightarrow> Some (Inl e, fs)
         | Inr source_stream \<Rightarrow>
             (case svn_fs__rep_contents_read_stream fs (Some target) of
                Inl e \<Rightarrow> Some (Inl e, fs)
              | Inr target_stream \<Rightarrow>
                  (case deltify_windows lib fuel fuel fs (svn_txdelta source_stream target_stream)
                          False \<lparr>wb_key = None, wb_size = 0, wb_header_read = 0, wb_version = 0\<rparr>
                          [] 0 0 of
                     None \<Rightarrow> None
                   | Some (Inl e, fs1) \<Rightarrow> Some (Inl e, fs1)
                   | Some (Inr (windows, diffsize, wb, stream), fs1) \<Rightarrow>
                       Some (deltify_replace fs1 target source windows diffsize
                               (wb_version wb) (ts_digest stream))))))"

text \<open>
  The \<^verbatim>\<open>do ... while (len)\<close> loop of \<^verbatim>\<open>svn_fs__rep_undeltify\<close>: chunks of the
  read stream are appended to the new string until a read returns no bytes. The result is
  the key of the new string and the bytes fed to the MD5 context.
\<close>

fun undeltify_copy ::
  "delta_lib \<Rightarrow> nat \<Rightarrow> nat \<Rightarrow> svn_fs \<Rightarrow> rep_read_baton \<Rightarrow> key option \<Rightarrow> byte list
     \<Rightarrow> ((failure + key option \<times> byte list) \<times> svn_fs) option" where
  "undeltify_copy lib 0 fuel fs source_stream target_key context = None"
| "undeltify_copy lib (Suc n) fuel fs source_stream target_key context =
     (case rep_read_contents lib fuel fs source_stream (stream_chunk_size lib) of
        None \<Rightarrow> None
      | Some (Inl e, rb) \<Rightarrow> Some (Inl e, fs)
      | Some (Inr buf, rb) \<Rightarrow>
          (let context' = context @ buf;
               (k, fs') = write_string fs target_key buf
           in
           if length buf \<noteq> 0 then undeltify_copy lib n fuel fs' rb (Some k) context'
           else Some (Inr (Some k, context'), fs')))"

definition svn_fs__rep_undeltify ::
  "delta_lib \<Rightarrow> nat \<Rightarrow> svn_fs \<Rightarrow> key \<Rightarrow> ((failure + unit) \<times> svn_fs) option" where
  "svn_fs__rep_undeltify lib fuel fs rep_k =
     (case svn_fs__bdb_read_rep fs rep_k of
        Inl e \<Rightarrow> Some (Inl e, fs)
      | Inr rep \<Rightarrow>
          (case contents rep of
             Fulltext _ \<Rightarrow> Some (Inr (), fs)
           | Delta chunks \<Rightarrow>
               (case delta_string_keys rep of
                  Inl e \<Rightarrow> Some (Inl e, fs)
                | Inr orig_keys \<Rightarrow>
                    (case svn_fs__rep_contents_read_stream fs (Some rep_k) of
                       Inl e \<Rightarrow> Some (Inl e, fs)
                     | Inr source_stream \<Rightarrow>
                         (case undeltify_copy lib fuel fuel fs source_stream None [] of
                            None \<Rightarrow> None
                          | Some (Inl e, fs1) \<Rightarrow> Some (Inl e, fs1)
                          | Some (Inr (target_key, context), fs1) \<Rightarrow>
                              (let dgst = apr_md5 lib context in
                               if \<not> svn_md5_digests_match (checksum rep) dgst then
                                 Some (Inl (checksum_mismatch ''svn_fs__rep_undeltify'' rep_k
                                              (checksum rep) dgst), fs1)
                               else
                                 (let rep' = make_fulltext_rep target_key None None;
                                      fs2 = svn_fs__bdb_write_rep fs1 rep_k rep'
                                  in Some (delete_strings orig_keys fs2))))))))"

section \<open>The fulltext of a representation\<close>

text \<open>
  The spec states the reader against \<open>reconstruct\<close>, the fulltext of a representation
  whatever its storage. This section defines it, link by link and without any composition
  of windows, together with the conditions on the stored data and on the delta library
  under which \<^verbatim>\<open>rep_read_range\<close>, which composes the windows of a chain before it
  applies them, returns the ranges of that text.
\<close>

subsection \<open>The contract of the delta library\<close>








subsection \<open>The reconstructed fulltext\<close>






subsection \<open>Well-formed representations\<close>





subsection \<open>Parts of the reader\<close>





section \<open>Invariants of the strings table\<close>

text \<open>The value of a decimal numeral: the inverse of \<open>decimal\<close>.\<close>

definition digit_val :: "char \<Rightarrow> nat" where
  "digit_val c = length (takeWhile (\<lambda>d. d \<noteq> c) ''0123456789'')"

definition undecimal :: "string \<Rightarrow> nat" where
  "undecimal s = foldl (\<lambda>a c. 10 * a + digit_val c) 0 s"

text \<open>
  The counter of the strings table is ahead of every key in use: no string has a key that
  the counter will still draw.
\<close>

definition alloc_ok :: "svn_fs \<Rightarrow> bool" where
  "alloc_ok fs = (\<forall>m. next_string fs \<le> m \<longrightarrow> strings fs (key_of m) = None)"

text \<open>
  The invariant of the loop of \<^verbatim>\<open>svn_fs__rep_deltify\<close> that writes the windows,
  between the filesystem \<open>fs0\<close> before the loop and the filesystem \<open>fs\<close> after some
  passes that have recorded the windows \<open>ws\<close>: the representations are untouched, the
  strings of \<open>fs0\<close> are untouched, and the keys of the windows are distinct keys drawn
  since, each naming a string.
\<close>

definition windows_inv :: "svn_fs \<Rightarrow> svn_fs \<Rightarrow> window_write list \<Rightarrow> bool" where
  "windows_inv fs0 fs ws =
     (alloc_ok fs \<and> reps fs = reps fs0 \<and> next_string fs0 \<le> next_string fs
      \<and> (\<forall>k. strings fs0 k \<noteq> None \<longrightarrow> strings fs k = strings fs0 k)
      \<and> (\<exists>ms. map ww_key ws = map (\<lambda>m. Some (key_of m)) ms \<and> distinct ms
              \<and> (\<forall>m \<in> set ms. next_string fs0 \<le> m \<and> m < next_string fs
                                 \<and> strings fs (key_of m) \<noteq> None)))"

section \<open>A delta library for the examples\<close>

text \<open>
  The witnesses and counterexamples below need one delta library to run the functions on.
  This one is small: a one-byte-per-number wire format, instructions that copy from the
  source view, from the target view or from the new data, and a diff that copies the
  common prefix of source and target.
\<close>

text \<open>A 16-byte check value that stands for MD5 in the examples; it is never all zero.\<close>

definition ref_md5 :: "byte list \<Rightarrow> digest" where
  "ref_md5 bs = [1, 1, 1, 1, 1, 1, 1, 1, 1, 1, 1, 1, 1, 1, of_nat (length bs), sum_list bs]"

text \<open>
  The wire format of the example library: after the 4-byte header, a window is the bytes
  \<open>sview_offset\<close>, \<open>sview_len\<close>, \<open>tview_len\<close>, the number of instructions, three
  bytes for each instruction (action, offset, length), and the new data.
\<close>

definition action_of_byte :: "byte \<Rightarrow> action_code option" where
  "action_of_byte b =
     (if b = 0 then Some Txdelta_source
      else if b = 1 then Some Txdelta_target
      else if b = 2 then Some Txdelta_new
      else None)"

definition byte_of_action :: "action_code \<Rightarrow> byte" where
  "byte_of_action a = (case a of Txdelta_source \<Rightarrow> 0 | Txdelta_target \<Rightarrow> 1 | Txdelta_new \<Rightarrow> 2)"

fun ref_parse_ops :: "nat \<Rightarrow> byte list \<Rightarrow> (txdelta_op list \<times> byte list) option" where
  "ref_parse_ops n bs =
     (if n = 0 then Some ([], bs)
      else
        (case bs of
           a # off # len # rest \<Rightarrow>
             (case action_of_byte a of
                None \<Rightarrow> None
              | Some act \<Rightarrow>
                  (case ref_parse_ops (n - 1) rest of
                     None \<Rightarrow> None
                   | Some (ops', nd) \<Rightarrow>
                       Some (\<lparr>op_action = act, op_offset = unat off, op_length = unat len\<rparr> # ops', nd)))
         | _ \<Rightarrow> None))"

declare ref_parse_ops.simps [simp del]

definition ref_parse :: "byte list \<Rightarrow> failure + window list" where
  "ref_parse bs =
     (case drop 4 bs of
        [] \<Rightarrow> Inr []
      | svo # svl # tvl # cnt # rest \<Rightarrow>
          (case ref_parse_ops (unat cnt) rest of
             None \<Rightarrow> Inl (Svn_error SVNDIFF_CORRUPT_WINDOW ''svndiff: bad window'')
           | Some (ops', nd) \<Rightarrow>
               Inr [\<lparr> sview_offset = unat svo, sview_len = unat svl, tview_len = unat tvl,
                      src_ops = length (filter (\<lambda>p. op_action p = Txdelta_source) ops'),
                      ops = ops', new_data = nd \<rparr>])
      | _ \<Rightarrow> Inl (Svn_error SVNDIFF_CORRUPT_WINDOW ''svndiff: bad window''))"

definition ref_encode :: "window \<Rightarrow> byte list list" where
  "ref_encode w =
     [[of_nat (sview_offset w), of_nat (sview_len w), of_nat (tview_len w), of_nat (length (ops w))]
        @ concat (map (\<lambda>p. [byte_of_action (op_action p), of_nat (op_offset p), of_nat (op_length p)])
                    (ops w))
        @ new_data w]"

text \<open>
  A byte of a target view, symbolically: a byte of the source view or a literal byte. A
  window is applied by expanding its instructions to such a list; two windows are composed
  by substituting the expansion of the older window for the source bytes of the newer.
  A read outside a buffer gives 0.
\<close>

datatype sym = Src nat | Lit byte

definition at_or :: "'a \<Rightarrow> 'a list \<Rightarrow> nat \<Rightarrow> 'a" where
  "at_or d xs i = (if i < length xs then xs ! i else d)"

fun copy_target :: "'a \<Rightarrow> 'a list \<Rightarrow> nat \<Rightarrow> nat \<Rightarrow> 'a list" where
  "copy_target d tbuf i n =
     (if n = 0 then tbuf else copy_target d (tbuf @ [at_or d tbuf i]) (i + 1) (n - 1))"

declare copy_target.simps [simp del]

fun ref_sym_ops :: "txdelta_op list \<Rightarrow> byte list \<Rightarrow> sym list \<Rightarrow> sym list" where
  "ref_sym_ops [] nd tbuf = tbuf"
| "ref_sym_ops (p # ps) nd tbuf =
     ref_sym_ops ps nd
       (case op_action p of
          Txdelta_source \<Rightarrow> tbuf @ map Src [op_offset p ..< op_offset p + op_length p]
        | Txdelta_target \<Rightarrow> copy_target (Lit 0) tbuf (op_offset p) (op_length p)
        | Txdelta_new \<Rightarrow>
            tbuf @ map (\<lambda>i. Lit (at_or 0 nd i)) [op_offset p ..< op_offset p + op_length p])"

definition eval_sym :: "byte list \<Rightarrow> sym \<Rightarrow> byte" where
  "eval_sym sbuf s = (case s of Src i \<Rightarrow> at_or 0 sbuf i | Lit b \<Rightarrow> b)"

definition ref_apply :: "window \<Rightarrow> byte list \<Rightarrow> nat \<Rightarrow> byte list" where
  "ref_apply w sbuf tlen =
     take (min tlen (tview_len w)) (map (eval_sym sbuf) (ref_sym_ops (ops w) (new_data w) []))"

fun sym_ops :: "sym list \<Rightarrow> nat \<Rightarrow> txdelta_op list" where
  "sym_ops [] k = []"
| "sym_ops (Src i # syms) k =
     \<lparr>op_action = Txdelta_source, op_offset = i, op_length = 1\<rparr> # sym_ops syms k"
| "sym_ops (Lit b # syms) k =
     \<lparr>op_action = Txdelta_new, op_offset = k, op_length = 1\<rparr> # sym_ops syms (Suc k)"

fun sym_lits :: "sym list \<Rightarrow> byte list" where
  "sym_lits [] = []"
| "sym_lits (Src i # syms) = sym_lits syms"
| "sym_lits (Lit b # syms) = b # sym_lits syms"

definition ref_compose :: "window option \<Rightarrow> window \<Rightarrow> window option \<times> compose_ctx" where
  "ref_compose a b =
     (case a of
        None \<Rightarrow> (None, \<lparr>use_second = True, ctx_sview_offset = 0, ctx_sview_len = 0\<rparr>)
      | Some wa \<Rightarrow>
          if src_ops b = 0 then
            (None, \<lparr>use_second = True, ctx_sview_offset = 0, ctx_sview_len = 0\<rparr>)
          else
            (let syma = ref_sym_ops (ops wa) (new_data wa) [];
                 syms = map (\<lambda>s. case s of
                                    Src j \<Rightarrow> if j < sview_len b then at_or (Lit 0) syma j else Lit 0
                                  | Lit c \<Rightarrow> Lit c)
                          (ref_sym_ops (ops b) (new_data b) [])
             in (Some \<lparr> sview_offset = sview_offset wa, sview_len = sview_len wa,
                        tview_len = tview_len b,
                        src_ops = length (filter (\<lambda>p. op_action p = Txdelta_source) (sym_ops syms 0)),
                        ops = sym_ops syms 0, new_data = sym_lits syms \<rparr>,
                 \<lparr>use_second = False, ctx_sview_offset = 0, ctx_sview_len = 0\<rparr>)))"

text \<open>A crude diff: the common prefix of the target with the source is copied, the rest is new.\<close>

fun common_prefix :: "byte list \<Rightarrow> byte list \<Rightarrow> nat" where
  "common_prefix (x # xs) (y # ys) = (if x = y then Suc (common_prefix xs ys) else 0)"
| "common_prefix _ _ = 0"

definition ref_compute :: "byte list \<Rightarrow> nat \<Rightarrow> byte list \<Rightarrow> window" where
  "ref_compute source_data pos target_data =
     (let n = common_prefix source_data target_data;
          copy = (if n = 0 then []
                  else [\<lparr>op_action = Txdelta_source, op_offset = 0, op_length = n\<rparr>]);
          rest = (if n = length target_data then []
                  else [\<lparr>op_action = Txdelta_new, op_offset = 0,
                          op_length = length target_data - n\<rparr>])
      in \<lparr> sview_offset = pos, sview_len = length source_data,
           tview_len = length target_data, src_ops = length copy,
           ops = copy @ rest, new_data = drop n target_data \<rparr>)"

definition ref_lib :: delta_lib where
  "ref_lib =
     \<lparr> apr_md5 = ref_md5, parse_svndiff = ref_parse, compose_windows = ref_compose,
       apply_instructions = ref_apply, compute_window = ref_compute, svndiff_version = 0,
       encode_window = ref_encode, stream_chunk_size = 16, max_object_size = 1000000 \<rparr>"


section \<open>Example filesystems\<close>

definition fs_empty :: svn_fs where
  "fs_empty = \<lparr> strings = Map.empty, next_string = 0, reps = Map.empty, next_rep = 0 \<rparr>"

text \<open>One fulltext representation \<open>0\<close> of the string \<open>abc\<close>, immutable.\<close>

definition fs_immutable :: svn_fs where
  "fs_immutable =
     \<lparr> strings = [''0'' \<mapsto> [0x61, 0x62, 0x63]], next_string = 1,
       reps = [''0'' \<mapsto> \<lparr> contents = Fulltext (Some ''0''), txn_id = None,
                            checksum = zero_digest \<rparr>],
       next_rep = 1 \<rparr>"

text \<open>The same representation, mutable under the transaction \<open>t1\<close>.\<close>

definition fs_mutable :: svn_fs where
  "fs_mutable =
     \<lparr> strings = [''0'' \<mapsto> [0x61, 0x62, 0x63]], next_string = 1,
       reps = [''0'' \<mapsto> \<lparr> contents = Fulltext (Some ''0''), txn_id = Some ''t1'',
                            checksum = zero_digest \<rparr>],
       next_rep = 1 \<rparr>"

text \<open>
  The string \<open>0\<close> is \<open>abcdef\<close>, the fulltext of the representation \<open>0\<close>. The
  representation \<open>1\<close> is a delta against \<open>0\<close> in two chunks, \<open>abX\<close> and \<open>efef\<close>;
  the representation \<open>2\<close> is a delta against \<open>1\<close> in two chunks, \<open>QbX\<close> and \<open>efef\<close>.
\<close>

definition fs_delta :: svn_fs where
  "fs_delta =
     \<lparr> strings = [''0'' \<mapsto> [0x61, 0x62, 0x63, 0x64, 0x65, 0x66],
                  ''1'' \<mapsto> [0, 3, 3, 2,  0, 0, 2,  2, 0, 1,  0x58],
                  ''2'' \<mapsto> [3, 3, 4, 2,  0, 1, 2,  1, 0, 2],
                  ''3'' \<mapsto> [0, 3, 3, 2,  2, 0, 1,  0, 1, 2,  0x51],
                  ''4'' \<mapsto> [3, 4, 4, 1,  0, 0, 4]],
       next_string = 5,
       reps = [''0'' \<mapsto> \<lparr> contents = Fulltext (Some ''0''), txn_id = None,
                            checksum = ref_md5 [0x61, 0x62, 0x63, 0x64, 0x65, 0x66] \<rparr>,
               ''1'' \<mapsto> \<lparr> contents = Delta
                   [\<lparr> version = 0, chunk_offset = 0, string_key = ''1'', chunk_size = 3,
                      chunk_checksum = zero_digest, rep_key = ''0'' \<rparr>,
                    \<lparr> version = 0, chunk_offset = 3, string_key = ''2'', chunk_size = 4,
                      chunk_checksum = zero_digest, rep_key = ''0'' \<rparr>],
                   txn_id = None,
                   checksum = ref_md5 [0x61, 0x62, 0x58, 0x65, 0x66, 0x65, 0x66] \<rparr>,
               ''2'' \<mapsto> \<lparr> contents = Delta
                   [\<lparr> version = 0, chunk_offset = 0, string_key = ''3'', chunk_size = 3,
                      chunk_checksum = zero_digest, rep_key = ''1'' \<rparr>,
                    \<lparr> version = 0, chunk_offset = 3, string_key = ''4'', chunk_size = 4,
                      chunk_checksum = zero_digest, rep_key = ''1'' \<rparr>],
                   txn_id = None,
                   checksum = ref_md5 [0x51, 0x62, 0x58, 0x65, 0x66, 0x65, 0x66] \<rparr>],
       next_rep = 3 \<rparr>"

text \<open>The same filesystem, with version 1 in the second chunk of the representation \<open>1\<close>.\<close>

definition fs_versions :: svn_fs where
  "fs_versions =
     fs_delta\<lparr>reps := (reps fs_delta)(''1'' \<mapsto>
        \<lparr> contents = Delta
            [\<lparr> version = 0, chunk_offset = 0, string_key = ''1'', chunk_size = 3,
               chunk_checksum = zero_digest, rep_key = ''0'' \<rparr>,
             \<lparr> version = 1, chunk_offset = 3, string_key = ''2'', chunk_size = 4,
               chunk_checksum = zero_digest, rep_key = ''0'' \<rparr>],
          txn_id = None,
          checksum = ref_md5 [0x61, 0x62, 0x58, 0x65, 0x66, 0x65, 0x66] \<rparr>)\<rparr>"


definition text_a :: "byte list" where
  "text_a = [0x61, 0x61, 0x61, 0x61, 0x61, 0x61, 0x61, 0x61,
             0x61, 0x61, 0x61, 0x61, 0x61, 0x61, 0x61, 0x61]"

definition text_b :: "byte list" where
  "text_b = [0x61, 0x61, 0x61, 0x61, 0x61, 0x61, 0x61, 0x61,
             0x61, 0x61, 0x61, 0x61, 0x61, 0x61, 0x61, 0x62]"

definition fs_texts :: svn_fs where
  "fs_texts =
     \<lparr> strings = [''0'' \<mapsto> text_a, ''1'' \<mapsto> text_b], next_string = 2,
       reps = [''0'' \<mapsto> \<lparr> contents = Fulltext (Some ''0''), txn_id = None,
                            checksum = ref_md5 text_a \<rparr>,
               ''1'' \<mapsto> \<lparr> contents = Fulltext (Some ''1''), txn_id = None,
                            checksum = ref_md5 text_b \<rparr>],
       next_rep = 2 \<rparr>"

section \<open>Properties\<close>

subsection \<open>Reading a string in hunks\<close>

lemma take_drop_hunk: "take n xs @ drop (length (take n xs)) xs = xs"
  by (cases "n \<le> length xs") (simp_all add: min_def)

text \<open>The loop of \<^verbatim>\<open>get_one_window\<close> feeds the stream the whole string from \<open>off\<close> on.\<close>

lemma read_hunks_eq:
  "read_hunks fs k off =
     (case strings fs k of
        None \<Rightarrow> Inl (Svn_error FS_NO_SUCH_STRING k)
      | Some s \<Rightarrow> Inr (drop off s))"
proof (induction fs k off rule: read_hunks.induct)
  case (1 fs k off)
  show ?case
  proof (cases "strings fs k")
    case None
    then show ?thesis
      by (subst read_hunks.simps) (simp add: svn_fs__bdb_string_read_def)
  next
    case (Some s)
    define hunk where "hunk = take 4096 (drop off s)"
    have rd: "svn_fs__bdb_string_read fs k off 4096 = Inr hunk"
      using Some by (simp add: svn_fs__bdb_string_read_def hunk_def)
    show ?thesis
    proof (cases "length hunk \<noteq> 0")
      case True
      have "read_hunks fs k (off + length hunk) = Inr (drop (off + length hunk) s)"
        using "1.IH" [OF rd True] Some by simp
      moreover have "drop (off + length hunk) s = drop (length hunk) (drop off s)"
        by (simp add: add.commute)
      moreover have "hunk @ drop (length hunk) (drop off s) = drop off s"
        unfolding hunk_def by (rule take_drop_hunk)
      ultimately have "read_hunks fs k off = Inr (drop off s)"
        using rd True by (subst read_hunks.simps) simp
      then show ?thesis using Some by simp
    next
      case False
      then have "drop off s = []" by (simp add: hunk_def)
      moreover have "read_hunks fs k off = Inr []"
        using rd False by (subst read_hunks.simps) simp
      ultimately show ?thesis using Some by simp
    qed
  qed
qed

subsection \<open>Keys and digests\<close>

lemma key_of_0 [simp]: "key_of 0 = ''0''"
  by (simp add: key_of_def decimal.simps)

lemma key_of_1 [simp]: "key_of (Suc 0) = ''1''"
  by (simp add: key_of_def decimal.simps)

lemma empty_string_digest_not_zero: "svn_md5_empty_string_digest \<noteq> zero_digest"
proof
  assume "svn_md5_empty_string_digest = zero_digest"
  then have "svn_md5_empty_string_digest ! 0 = zero_digest ! 0" by simp
  then show False by (simp add: svn_md5_empty_string_digest_def zero_digest_def)
qed

subsection \<open>Writing to a representation that is not mutable\<close>

text \<open>
  What \<^verbatim>\<open>rep_write\<close> does with a fulltext representation that is not mutable under
  the transaction: the error is built and dropped, the bytes are appended and the call
  succeeds.
\<close>

lemma rep_write_not_mutable_fulltext:
  assumes "reps fs k = Some rep" and "\<not> rep_is_mutable rep txn"
    and "contents rep = Fulltext (Some sk)" and "strings fs sk = Some s"
  shows "rep_write fs k buf txn = (Inr (), fs\<lparr>strings := (strings fs)(sk \<mapsto> s @ buf)\<rparr>)"
  using assms by (simp add: rep_write_def svn_fs__bdb_read_rep_def svn_fs__bdb_string_append_def)

text \<open>
  C4. The claim: a write to a representation that is not mutable under the caller's
  transaction fails with \<open>FS_REP_NOT_MUTABLE\<close> and leaves the string unchanged. The
  source does not do so: on the immutable representation \<open>0\<close> of \<open>abc\<close>, a write of the
  byte \<open>d\<close> under the transaction \<open>t1\<close> succeeds and the string becomes \<open>abcd\<close>.
\<close>

theorem rep_write_immutable_appends:
  "rep_write fs_immutable ''0'' [0x64] ''t1'' =
     (Inr (), fs_immutable\<lparr>strings := [''0'' \<mapsto> [0x61, 0x62, 0x63, 0x64]]\<rparr>)"
  by (simp add: rep_write_def fs_immutable_def svn_fs__bdb_read_rep_def rep_is_mutable_def
      svn_fs__bdb_string_append_def)

subsection \<open>Getting a mutable representation\<close>

text \<open>
  C7, as stated: the representation that \<^verbatim>\<open>svn_fs__get_mutable_rep\<close> allocates has the
  zero-filled checksum. It has not: the source passes \<^verbatim>\<open>svn_md5_empty_string_digest\<close> to
  \<^verbatim>\<open>make_fulltext_rep\<close>, and the new representation carries the MD5 digest of the
  empty string.
\<close>

theorem get_mutable_rep_checksum_counterexample:
  "\<not> (case svn_fs__get_mutable_rep None fs_empty ''t1'' of
        (Inr k, fs') \<Rightarrow>
          (case reps fs' k of Some rep \<Rightarrow> checksum rep = zero_digest | None \<Rightarrow> False)
      | (Inl e, fs') \<Rightarrow> False)"
  by (simp add: svn_fs__get_mutable_rep_def fs_empty_def svn_fs__bdb_string_append_def
      make_fulltext_rep_def svn_fs__bdb_write_new_rep_def empty_string_digest_not_zero Let_def)

text \<open>
  C7, amended. For a transaction id that is not empty and a base key that is absent, empty
  or names a representation: if the base representation is mutable under the transaction,
  \<^verbatim>\<open>svn_fs__get_mutable_rep\<close> returns the base key and leaves the filesystem as it is;
  otherwise it appends no bytes to a new string, and writes under a new key a fulltext
  representation of that string, owned by the transaction, whose checksum is the MD5
  digest of the empty string.
\<close>

theorem get_mutable_rep_result:
  assumes "txn \<noteq> []"
    and "case base of None \<Rightarrow> True | Some k \<Rightarrow> k = [] \<or> reps fs k \<noteq> None"
  shows "svn_fs__get_mutable_rep base fs txn =
     (if \<exists>k rep. base = Some k \<and> k \<noteq> [] \<and> reps fs k = Some rep \<and> rep_is_mutable rep txn
      then (Inr (the base), fs)
      else (Inr (key_of (next_rep fs)),
            fs\<lparr> strings := (strings fs)(key_of (next_string fs) \<mapsto> []),
                next_string := Suc (next_string fs),
                reps := (reps fs)(key_of (next_rep fs) \<mapsto>
                          \<lparr> contents = Fulltext (Some (key_of (next_string fs))),
                            txn_id = Some txn,
                            checksum = svn_md5_empty_string_digest \<rparr>),
                next_rep := Suc (next_rep fs) \<rparr>))"
  using assms
  by (auto simp: svn_fs__get_mutable_rep_def svn_fs__bdb_string_append_def Let_def
      make_fulltext_rep_def svn_fs__bdb_write_new_rep_def svn_fs__bdb_read_rep_def
      split: option.splits)

text \<open>
  C7, witness: the base \<open>0\<close> is mutable under \<open>t1\<close> and is returned; under \<open>t2\<close> it
  is not, and the representation \<open>1\<close> of the new empty string \<open>1\<close> is allocated.
\<close>

theorem get_mutable_rep_result_witness:
  "svn_fs__get_mutable_rep (Some ''0'') fs_mutable ''t1'' = (Inr ''0'', fs_mutable)
   \<and> svn_fs__get_mutable_rep (Some ''0'') fs_mutable ''t2'' =
       (Inr ''1'',
        fs_mutable\<lparr> strings := (strings fs_mutable)(''1'' \<mapsto> []), next_string := 2,
          reps := (reps fs_mutable)(''1'' \<mapsto>
                    \<lparr> contents = Fulltext (Some ''1''), txn_id = Some ''t2'',
                      checksum = svn_md5_empty_string_digest \<rparr>),
          next_rep := 2 \<rparr>)"
  using get_mutable_rep_result [where txn = "''t1''" and base = "Some ''0''" and fs = fs_mutable]
    get_mutable_rep_result [where txn = "''t2''" and base = "Some ''0''" and fs = fs_mutable]
  by (simp add: fs_mutable_def rep_is_mutable_def)

subsection \<open>Reading a stream without a representation\<close>

text \<open>
  C8. A read through the read stream whose representation key is absent returns no bytes
  and no error when the offset of the stream is 0, and fails with \<open>FS_REP_CHANGED\<close>
  when the offset is greater than 0. The baton is left as it was.
\<close>

theorem read_null_rep:
  "rep_read_contents lib fuel fs (rb\<lparr>rb_rep_key := None\<rparr>) len =
     (if rb_offset rb = 0 then Some (Inr [], rb\<lparr>rb_rep_key := None\<rparr>)
      else Some (Inl (Svn_error FS_REP_CHANGED
                        ''txn_body_read_rep: null rep, but offset past zero already''),
                 rb\<lparr>rb_rep_key := None\<rparr>))"
  by (simp add: rep_read_contents_def txn_body_read_rep_def)

subsection \<open>Deltifying a representation against itself\<close>

text \<open>
  C9. \<^verbatim>\<open>svn_fs__rep_deltify\<close> of a key against the same key fails with
  \<open>FS_CORRUPT\<close>, whatever the filesystem holds, and leaves the filesystem as it was: no
  stream has been opened and no string written.
\<close>

theorem deltify_against_itself:
  "svn_fs__rep_deltify lib fuel fs k k =
     Some (Inl (Svn_error FS_CORRUPT
                  (''svn_fs__rep_deltify: attempt to deltify \"'' @ k @ ''\" against itself'')),
           fs)"
  by (simp add: svn_fs__rep_deltify_def)

subsection \<open>The check of the svndiff version\<close>

lemma chunk_search_index:
  "chunk_search lib chunks i rep_offset = Inr (Some (c, co)) \<Longrightarrow> i \<le> c \<and> c < i + length chunks"
proof (induction chunks arbitrary: i)
  case Nil
  then show ?case by simp
next
  case (Cons this_chunk chunks)
  show ?case
  proof (cases "chunk_offset this_chunk + chunk_size this_chunk > rep_offset")
    case True
    with Cons.prems show ?thesis by (auto split: if_splits)
  next
    case False
    with Cons.prems have "chunk_search lib chunks (Suc i) rep_offset = Inr (Some (c, co))"
      by simp
    from Cons.IH [OF this] show ?thesis by simp
  qed
qed

lemma get_chunk_offset_index:
  "get_chunk_offset lib rep rep_offset = Inr (Some (c, co)) \<Longrightarrow> c < length (delta_chunks rep)"
  using chunk_search_index [of lib "delta_chunks rep" 0 rep_offset c co]
  by (auto simp: get_chunk_offset_def split: if_splits)

lemma has_chunk_iff:
  "(case contents rep of Delta chunks' \<Rightarrow> cur_chunk < length chunks' | Fulltext x \<Rightarrow> False)
     = (cur_chunk < length (delta_chunks rep))"
  by (simp add: delta_chunks_def split: rep_contents.splits)

lemma collect_reps_mismatch:
  assumes "traversed fs cur_chunk n k rep k' rep'"
    and "cur_chunk < length (delta_chunks rep)"
    and "version (delta_chunks rep' ! 0) \<noteq> version (delta_chunks rep' ! cur_chunk)"
    and "n < fuel"
  shows "collect_reps fuel fs k rep cur_chunk = Some (Inl (version_error k'))"
  using assms
proof (induction arbitrary: fuel rule: traversed.induct)
  case (traversed_here k rep)
  then obtain f where "fuel = Suc f" by (cases fuel) auto
  with traversed_here show ?case by (simp add: Let_def)
next
  case (traversed_next rep rep1 n k' rep' k)
  then obtain f where f: "fuel = Suc f" and "n < f" by (cases fuel) auto
  with traversed_next have "collect_reps f fs (rep_key (delta_chunks rep ! cur_chunk)) rep1 cur_chunk
      = Some (Inl (version_error k'))" by simp
  with traversed_next f show ?case
    by (simp add: Let_def svn_fs__bdb_read_rep_def has_chunk_iff)
qed

lemma collect_reps_consistent:
  assumes "\<And>n k' rep'. traversed fs cur_chunk n k rep k' rep'
             \<Longrightarrow> version (delta_chunks rep' ! 0) = version (delta_chunks rep' ! cur_chunk)"
  shows "collect_reps fuel fs k rep cur_chunk \<noteq> Some (Inl (version_error k''))"
  using assms
proof (induction fuel arbitrary: k rep)
  case 0
  then show ?case by simp
next
  case (Suc fuel)
  have here: "version (delta_chunks rep ! 0) = version (delta_chunks rep ! cur_chunk)"
    using Suc.prems traversed_here by blast
  show ?case
  proof (cases "reps fs (rep_key (delta_chunks rep ! cur_chunk))")
    case None
    with here show ?thesis
      by (simp add: Let_def svn_fs__bdb_read_rep_def version_error_def)
  next
    case (Some rep1)
    show ?thesis
    proof (cases "cur_chunk < length (delta_chunks rep1)")
      case True
      have "collect_reps fuel fs (rep_key (delta_chunks rep ! cur_chunk)) rep1 cur_chunk
              \<noteq> Some (Inl (version_error k''))"
      proof (rule Suc.IH)
        fix n k' rep'
        assume "traversed fs cur_chunk n (rep_key (delta_chunks rep ! cur_chunk)) rep1 k' rep'"
        with here Some True have "traversed fs cur_chunk (Suc n) k rep k' rep'"
          by (rule traversed_next)
        then show "version (delta_chunks rep' ! 0) = version (delta_chunks rep' ! cur_chunk)"
          by (rule Suc.prems)
      qed
      with here Some True show ?thesis
        by (auto simp: Let_def svn_fs__bdb_read_rep_def has_chunk_iff version_error_def
            split: option.splits sum.splits)
    next
      case False
      with here Some show ?thesis
        by (simp add: Let_def svn_fs__bdb_read_rep_def has_chunk_iff version_error_def)
    qed
  qed
qed


lemma compose_handler_failure: "compose_handler lib win cb = Inl e \<Longrightarrow> e = Abort"
  by (auto simp: compose_handler_def split: if_splits option.splits prod.splits)

lemma push_windows_failure: "push_windows lib wins cb = Inl e \<Longrightarrow> e = Abort"
  by (induction wins arbitrary: cb) (auto split: sum.splits dest: compose_handler_failure)

lemma get_one_window_failure:
  assumes "get_one_window lib cb fs rep cur_chunk = Inl e"
  shows "e = Abort \<or> (\<exists>k. e = Svn_error FS_NO_SUCH_STRING k) \<or> (\<exists>bs. parse_svndiff lib bs = Inl e)"
proof (cases "contents rep")
  case (Fulltext sk)
  with assms show ?thesis by (simp add: get_one_window_def)
next
  case (Delta chunks)
  show ?thesis
  proof (cases "length chunks \<le> cur_chunk")
    case True
    with assms Delta show ?thesis
      by (auto simp: get_one_window_def dest: compose_handler_failure)
  next
    case False
    with assms Delta show ?thesis
      by (auto simp: get_one_window_def Let_def read_hunks_eq
          split: option.splits sum.splits if_splits dest: push_windows_failure)
  qed
qed

lemma get_windows_failure:
  "get_windows lib fs cur_chunk cb deltas = Inl e \<Longrightarrow>
     e = Abort \<or> (\<exists>k. e = Svn_error FS_NO_SUCH_STRING k) \<or> (\<exists>bs. parse_svndiff lib bs = Inl e)"
proof (induction deltas arbitrary: cb)
  case Nil
  then show ?case by simp
next
  case (Cons rep deltas)
  show ?case
  proof (cases "get_one_window lib cb fs rep cur_chunk")
    case (Inl e')
    with Cons.prems have "e' = e" by (simp split: if_splits)
    with Inl show ?thesis using get_one_window_failure by blast
  next
    case (Inr cb')
    with Cons.prems have "get_windows lib fs cur_chunk cb' deltas = Inl e"
      by (simp split: if_splits)
    then show ?thesis by (rule Cons.IH)
  qed
qed

lemma undeltify_chunk_failure:
  assumes "undeltify_chunk lib fs deltas fulltext cur_chunk offset want = Inl e"
  shows "e = Abort \<or> (\<exists>k. e = Svn_error FS_NO_SUCH_STRING k) \<or> (\<exists>bs. parse_svndiff lib bs = Inl e)"
proof (cases "get_windows lib fs cur_chunk
                \<lparr>cb_window = None, cb_done = False, cb_init = False\<rparr> deltas")
  case (Inl e')
  with assms have "e' = e" by (simp add: undeltify_chunk_def)
  with Inl show ?thesis using get_windows_failure by blast
next
  case (Inr cb)
  with assms show ?thesis
    by (auto simp: undeltify_chunk_def svn_fs__bdb_string_read_def Let_def
        split: option.splits sum.splits if_splits rep_contents.splits)
qed

lemma undeltify_loop_failure:
  "undeltify_loop lib fs deltas fulltext cur_chunk offset len len_read = Inl e \<Longrightarrow>
     e = Abort \<or> (\<exists>k. e = Svn_error FS_NO_SUCH_STRING k) \<or> (\<exists>bs. parse_svndiff lib bs = Inl e)"
proof (induction lib fs deltas fulltext cur_chunk offset len len_read rule: undeltify_loop.induct)
  case (1 lib fs deltas fulltext cur_chunk offset len len_read)
  show ?case
  proof (cases "undeltify_chunk lib fs deltas fulltext cur_chunk offset (len - len_read)")
    case (Inl e')
    with "1.prems" have "e' = e" by (subst (asm) undeltify_loop.simps) simp
    with Inl show ?thesis using undeltify_chunk_failure by blast
  next
    case (Inr r)
    show ?thesis
    proof (cases r)
      case None
      with Inr "1.prems" show ?thesis by (subst (asm) undeltify_loop.simps) simp
    next
      case (Some target)
      show ?thesis
      proof (cases "len_read + length target < len")
        case True
        with Inr Some "1.prems"
        have "undeltify_loop lib fs deltas fulltext (Suc cur_chunk) 0 len (len_read + length target)
                = Inl e"
          by (subst (asm) undeltify_loop.simps) (simp split: sum.splits)
        with "1.IH" [OF Inr Some True] show ?thesis by simp
      next
        case False
        with Inr Some "1.prems" show ?thesis by (subst (asm) undeltify_loop.simps) simp
      qed
    qed
  qed
qed

text \<open>
  What the loop of \<^verbatim>\<open>rep_read_range\<close> tests. For a read at an offset that lies in the
  chunk \<open>cur_chunk\<close> of the representation: if a representation that the loop passes
  through has a version in its chunk \<open>cur_chunk\<close> that differs from the version in its
  chunk 0, the read fails with the error of \<open>version_error\<close>, which names that
  representation (given fuel for the passes up to it). If every representation passed
  through has equal versions in these two chunks, the read does not fail with this error
  (for a parser that does not itself return it). The chunks that the read goes on to after
  \<open>cur_chunk\<close> do not occur in the statement: the source does not test them.
\<close>

lemma version_check_at_start:
  assumes "reps fs rep_k = Some rep"
    and "get_chunk_offset lib rep offset = Inr (Some (cur_chunk, chunk_off))"
  shows "(\<forall>n k' rep' fuel.
            traversed fs cur_chunk n rep_k rep k' rep'
            \<and> version (delta_chunks rep' ! 0) \<noteq> version (delta_chunks rep' ! cur_chunk)
            \<and> n < fuel
            \<longrightarrow> rep_read_range lib fuel fs rep_k offset len = Some (Inl (version_error k')))
       \<and> ((\<forall>n k' rep'. traversed fs cur_chunk n rep_k rep k' rep'
              \<longrightarrow> version (delta_chunks rep' ! 0) = version (delta_chunks rep' ! cur_chunk))
           \<and> (\<forall>bs k'. parse_svndiff lib bs \<noteq> Inl (version_error k'))
           \<longrightarrow> (\<forall>fuel k'. rep_read_range lib fuel fs rep_k offset len
                             \<noteq> Some (Inl (version_error k'))))"
proof -
  have cur: "cur_chunk < length (delta_chunks rep)"
    using assms(2) by (rule get_chunk_offset_index)
  then obtain chunks where delta: "contents rep = Delta chunks"
    by (cases "contents rep") (auto simp: delta_chunks_def)
  have read: "rep_read_range lib fuel fs rep_k offset len =
      (case collect_reps fuel fs rep_k rep cur_chunk of
         None \<Rightarrow> None
       | Some (Inl e) \<Rightarrow> Some (Inl e)
       | Some (Inr (deltas, final)) \<Rightarrow>
           Some (rep_undeltify_range lib fs deltas
                   (case contents final of Delta _ \<Rightarrow> None | Fulltext _ \<Rightarrow> Some final)
                   cur_chunk chunk_off len))" for fuel
    using assms delta by (simp add: rep_read_range_def svn_fs__bdb_read_rep_def)
  have part1: "rep_read_range lib fuel fs rep_k offset len = Some (Inl (version_error k'))"
    if "traversed fs cur_chunk n rep_k rep k' rep'"
      and "version (delta_chunks rep' ! 0) \<noteq> version (delta_chunks rep' ! cur_chunk)"
      and "n < fuel" for n k' rep' fuel
    using collect_reps_mismatch [OF that(1) cur that(2) that(3)] by (simp add: read)
  have part2: "rep_read_range lib fuel fs rep_k offset len \<noteq> Some (Inl (version_error k'))"
    if cons: "\<And>n k' rep'. traversed fs cur_chunk n rep_k rep k' rep'
              \<Longrightarrow> version (delta_chunks rep' ! 0) = version (delta_chunks rep' ! cur_chunk)"
      and parser: "\<And>bs k'. parse_svndiff lib bs \<noteq> Inl (version_error k')" for fuel k'
  proof
    assume err: "rep_read_range lib fuel fs rep_k offset len = Some (Inl (version_error k'))"
    have walk: "collect_reps fuel fs rep_k rep cur_chunk \<noteq> Some (Inl (version_error k'))"
      using cons by (rule collect_reps_consistent)
    with err obtain deltas final where
      "rep_undeltify_range lib fs deltas
         (case contents final of Delta _ \<Rightarrow> None | Fulltext _ \<Rightarrow> Some final)
         cur_chunk chunk_off len = Inl (version_error k')"
      by (auto simp: read split: option.splits sum.splits)
    then have "version_error k' = Abort
        \<or> (\<exists>k. version_error k' = Svn_error FS_NO_SUCH_STRING k)
        \<or> (\<exists>bs. parse_svndiff lib bs = Inl (version_error k'))"
      unfolding rep_undeltify_range_def by (rule undeltify_loop_failure)
    with parser show False by (auto simp: version_error_def)
  qed
  show ?thesis using part1 part2 by blast
qed


subsection \<open>Running the example library\<close>

lemmas ref_defs = ref_lib_def ref_parse_def ref_apply_def ref_compose_def ref_md5_def
  action_of_byte_def ref_parse_ops.simps copy_target.simps at_or_def eval_sym_def upt_conv_Cons

lemmas read_defs = rep_read_range_def svn_fs__bdb_read_rep_def get_chunk_offset_def
  delta_chunks_def rep_undeltify_range_def undeltify_loop.simps undeltify_chunk_def
  get_one_window_def read_hunks_eq compose_handler_def svn_fs__bdb_string_read_def Let_def


text \<open>
  C6. The claim: a read over a delta representation fails with \<open>FS_CORRUPT\<close>, in a
  message that names the representation, when a representation it passes through has a
  chunk whose version differs from the version of its chunk 0. The source compares the
  versions once, for the chunk in which the read starts, in the loop that lists the
  representations; \<^verbatim>\<open>rep_undeltify_range\<close> then goes on from chunk to chunk without a
  test. In \<open>fs_versions\<close> the chunk 1 of the representation \<open>1\<close> has version 1 and its
  chunk 0 has version 0. A read of \<open>1\<close> at offset 3, which starts in chunk 1, fails with
  \<open>FS_CORRUPT\<close> and names \<open>1\<close>. A read of all 7 bytes from offset 0, which starts in
  chunk 0 and goes on into chunk 1, succeeds: for \<open>1\<close>, for \<open>2\<close> (a delta against
  \<open>1\<close>), and for \<^verbatim>\<open>svn_fs__rep_contents\<close> of \<open>1\<close>.
\<close>

theorem read_past_version_mismatch:
  "version (delta_chunks (the (reps fs_versions ''1'')) ! Suc 0)
     \<noteq> version (delta_chunks (the (reps fs_versions ''1'')) ! 0)
   \<and> rep_read_range ref_lib (Suc (Suc 0)) fs_versions ''1'' 3 4
       = Some (Inl (Svn_error FS_CORRUPT
                      (''diff version inconsistencies in representation `1'' @ [CHR 0x27])))
   \<and> rep_read_range ref_lib (Suc (Suc 0)) fs_versions ''1'' 0 7
       = Some (Inr [0x61, 0x62, 0x58, 0x65, 0x66, 0x65, 0x66])
   \<and> rep_read_range ref_lib (Suc (Suc (Suc 0))) fs_versions ''2'' 0 7
       = Some (Inr [0x51, 0x62, 0x58, 0x65, 0x66, 0x65, 0x66])
   \<and> svn_fs__rep_contents ref_lib (Suc (Suc 0)) fs_versions ''1''
       = Some (Inr [0x61, 0x62, 0x58, 0x65, 0x66, 0x65, 0x66])"
proof (intro conjI)
  show "version (delta_chunks (the (reps fs_versions ''1'')) ! Suc 0)
          \<noteq> version (delta_chunks (the (reps fs_versions ''1'')) ! 0)"
    by (simp add: fs_versions_def delta_chunks_def)
  show "rep_read_range ref_lib (Suc (Suc 0)) fs_versions ''1'' 3 4
       = Some (Inl (Svn_error FS_CORRUPT
                      (''diff version inconsistencies in representation `1'' @ [CHR 0x27])))"
    by (simp add: read_defs fs_versions_def fs_delta_def ref_lib_def version_error_def)
  show whole: "rep_read_range ref_lib (Suc (Suc 0)) fs_versions ''1'' 0 7
       = Some (Inr [0x61, 0x62, 0x58, 0x65, 0x66, 0x65, 0x66])"
    by (simp add: read_defs fs_versions_def fs_delta_def ref_defs)
  show "rep_read_range ref_lib (Suc (Suc (Suc 0))) fs_versions ''2'' 0 7
       = Some (Inr [0x51, 0x62, 0x58, 0x65, 0x66, 0x65, 0x66])"
    by (simp add: read_defs fs_versions_def fs_delta_def ref_defs)
  have sz: "svn_fs__rep_contents_size fs_versions ''1'' = Inr 7"
    by (simp add: svn_fs__rep_contents_size_def svn_fs__bdb_read_rep_def fs_versions_def)
  have rp: "svn_fs__bdb_read_rep fs_versions ''1'' = Inr (the (reps fs_versions ''1''))"
    by (simp add: svn_fs__bdb_read_rep_def fs_versions_def)
  have ck: "checksum (the (reps fs_versions ''1''))
              = apr_md5 ref_lib [0x61, 0x62, 0x58, 0x65, 0x66, 0x65, 0x66]"
    by (simp add: fs_versions_def ref_lib_def)
  have le: "7 \<le> max_object_size ref_lib" by (simp add: ref_lib_def)
  show "svn_fs__rep_contents ref_lib (Suc (Suc 0)) fs_versions ''1''
       = Some (Inr [0x61, 0x62, 0x58, 0x65, 0x66, 0x65, 0x66])"
    using le by (simp add: svn_fs__rep_contents_def sz whole rp ck svn_md5_digests_match_def)
qed

lemma ref_md5_not_zero: "ref_md5 bs \<noteq> zero_digest" "zero_digest \<noteq> ref_md5 bs"
proof -
  have "ref_md5 bs ! 0 \<noteq> zero_digest ! 0"
    by (simp add: ref_md5_def zero_digest_def)
  then show "ref_md5 bs \<noteq> zero_digest" "zero_digest \<noteq> ref_md5 bs" by auto
qed

lemmas stream_defs = svn_fs__rep_contents_read_stream_def rep_read_get_baton_def
  svn_fs__rep_contents_size_def svn_fs__bdb_string_size_def rep_read_contents_def
  txn_body_read_rep_def svn_md5_digests_match_def

lemmas deltify_defs = svn_fs__rep_deltify_def svn_txdelta_def svn_txdelta_next_window_def
  new_target_handler_def write_svndiff_strings_def svn_fs__bdb_string_append_def
  deltify_replace_def svn_fs__bdb_write_rep_def svn_fs__bdb_string_delete_def
  ref_compute_def ref_encode_def byte_of_action_def key_of_def decimal.simps

lemmas undeltify_defs = svn_fs__rep_undeltify_def delta_string_keys_def write_string_def
  make_fulltext_rep_def svn_fs__bdb_string_append_def svn_fs__bdb_write_rep_def
  svn_fs__bdb_string_delete_def key_of_def decimal.simps

subsection \<open>The whole contents of a representation\<close>




subsection \<open>Undeltifying\<close>

lemma string_delete_reps:
  "svn_fs__bdb_string_delete fs k = (r, fs') \<Longrightarrow> reps fs' = reps fs"
  by (auto simp: svn_fs__bdb_string_delete_def split: option.splits)

lemma delete_strings_reps:
  "delete_strings keys fs = (r, fs') \<Longrightarrow> reps fs' = reps fs"
proof (induction keys arbitrary: fs)
  case Nil
  then show ?case by simp
next
  case (Cons k keys)
  obtain r1 fs1 where d: "svn_fs__bdb_string_delete fs k = (r1, fs1)"
    by (cases "svn_fs__bdb_string_delete fs k")
  then have "reps fs1 = reps fs" by (rule string_delete_reps)
  moreover have "reps fs' = reps fs1"
  proof (cases r1)
    case (Inl e)
    with Cons.prems d show ?thesis by simp
  next
    case (Inr u)
    with Cons.prems d have "delete_strings keys fs1 = (r, fs')" by simp
    then show ?thesis by (rule Cons.IH)
  qed
  ultimately show ?case by simp
qed

text \<open>
  Whenever \<^verbatim>\<open>svn_fs__rep_undeltify\<close> succeeds on a delta representation, the
  representation it leaves under the key is the one \<^verbatim>\<open>make_fulltext_rep\<close> builds
  for a \<^verbatim>\<open>NULL\<close> checksum: the checksum of the old representation is not carried over.
\<close>

lemma undeltify_delta_checksum:
  assumes "svn_fs__rep_undeltify lib fuel fs rep_k = Some (Inr u, fs')"
    and "reps fs rep_k = Some rep" and "contents rep = Delta chunks"
  shows "\<exists>str_key. reps fs' rep_k = Some (make_fulltext_rep str_key None None)"
proof -
  from assms obtain target_key fs1 where
    "delete_strings (map string_key chunks)
       (svn_fs__bdb_write_rep fs1 rep_k (make_fulltext_rep target_key None None)) = (Inr u, fs')"
    by (auto simp: svn_fs__rep_undeltify_def svn_fs__bdb_read_rep_def delta_string_keys_def
        Let_def split: sum.splits option.splits if_splits prod.splits)
  from delete_strings_reps [OF this] show ?thesis
    by (auto simp: svn_fs__bdb_write_rep_def)
qed


text \<open>
  C3. The claim: undeltifying after deltifying gives back the contents and the stored
  checksum. The source does not keep the checksum. In \<open>fs_texts\<close> the representation
  \<open>1\<close> is deltified against \<open>0\<close> and then undeltified: both calls succeed, the new
  string \<open>3\<close> holds the original contents, but the checksum, which was the check value of
  the contents before and after the deltification, is all zero after the undeltification.
\<close>

theorem undeltify_zero_checksum:
  "(case svn_fs__rep_deltify ref_lib (Suc (Suc 0)) fs_texts ''1'' ''0'' of
      Some (Inr u, fs1) \<Rightarrow>
        (case svn_fs__rep_undeltify ref_lib (Suc (Suc 0)) fs1 ''1'' of
           Some (Inr u', fs2) \<Rightarrow>
             checksum (the (reps fs_texts ''1'')) = ref_md5 text_b
             \<and> checksum (the (reps fs1 ''1'')) = ref_md5 text_b
             \<and> reps fs2 ''1'' =
                 Some \<lparr> contents = Fulltext (Some ''3''), txn_id = None,
                        checksum = zero_digest \<rparr>
             \<and> strings fs2 ''3'' = Some text_b
         | _ \<Rightarrow> False)
    | _ \<Rightarrow> False)
   \<and> ref_md5 text_b \<noteq> zero_digest"
  by (simp add: ref_md5_not_zero)
     (simp add: deltify_defs undeltify_defs stream_defs read_defs ref_defs fs_texts_def
       text_a_def text_b_def)

subsection \<open>Keys are distinct\<close>

lemma digit_val_digit: "d < 10 \<Longrightarrow> digit_val (''0123456789'' ! d) = d"
proof -
  assume "d < 10"
  then have "d = 0 \<or> d = 1 \<or> d = 2 \<or> d = 3 \<or> d = 4 \<or> d = 5 \<or> d = 6
    \<or> d = 7 \<or> d = 8 \<or> d = 9" by arith
  then show ?thesis by (elim disjE) (simp_all add: digit_val_def)
qed

lemma undecimal_decimal: "undecimal (decimal n) = n"
proof (induction n rule: decimal.induct)
  case (1 n)
  show ?case
  proof (cases "n < 10")
    case True
    then show ?thesis
      by (subst decimal.simps) (simp add: undecimal_def digit_val_digit)
  next
    case False
    have "undecimal (decimal n) = 10 * undecimal (decimal (n div 10)) + n mod 10"
      using False by (subst decimal.simps) (simp add: undecimal_def digit_val_digit)
    with 1 False show ?thesis by simp
  qed
qed

lemma key_of_inj: "key_of m = key_of n \<Longrightarrow> m = n"
  by (metis key_of_def undecimal_decimal)


subsection \<open>The strings written while deltifying\<close>

lemma write_svndiff_strings_effect:
  assumes "write_svndiff_strings fs wb data = (Inr u, wb', fs')"
  shows "reps fs' = reps fs
       \<and> wb_key wb' = Some (case wb_key wb of None \<Rightarrow> key_of (next_string fs) | Some k \<Rightarrow> k)
       \<and> next_string fs' = (case wb_key wb of None \<Rightarrow> Suc (next_string fs)
                                             | Some k \<Rightarrow> next_string fs)
       \<and> (\<forall>k'. Some k' \<noteq> wb_key wb' \<longrightarrow> strings fs' k' = strings fs k')
       \<and> strings fs' (the (wb_key wb')) \<noteq> None
       \<and> wb_size wb' = wb_size wb + length data"
  using assms
  by (auto simp: write_svndiff_strings_def svn_fs__bdb_string_append_def Let_def
      split: if_splits option.splits prod.splits)

lemma write_all_effect:
  assumes "write_all fs wb datas = (Inr u, wb', fs')" and "datas \<noteq> []"
  shows "reps fs' = reps fs
       \<and> wb_key wb' = Some (case wb_key wb of None \<Rightarrow> key_of (next_string fs) | Some k \<Rightarrow> k)
       \<and> next_string fs' = (case wb_key wb of None \<Rightarrow> Suc (next_string fs)
                                             | Some k \<Rightarrow> next_string fs)
       \<and> (\<forall>k'. Some k' \<noteq> wb_key wb' \<longrightarrow> strings fs' k' = strings fs k')
       \<and> strings fs' (the (wb_key wb')) \<noteq> None
       \<and> wb_size wb' = wb_size wb + sum_list (map length datas)"
  using assms
proof (induction datas arbitrary: fs wb)
  case Nil
  then show ?case by simp
next
  case (Cons data datas)
  obtain r1 wb1 fs1 where w1: "write_svndiff_strings fs wb data = (r1, wb1, fs1)"
    by (cases "write_svndiff_strings fs wb data")
  with Cons.prems obtain u1 where r1: "r1 = Inr u1"
    by (cases r1) auto
  note e1 = write_svndiff_strings_effect [OF w1 [unfolded r1]]
  show ?case
  proof (cases "datas = []")
    case True
    with Cons.prems w1 r1 have "wb' = wb1" "fs' = fs1" by auto
    with e1 True show ?thesis by (auto split: option.splits)
  next
    case False
    from Cons.prems w1 r1 have "write_all fs1 wb1 datas = (Inr u, wb', fs')" by simp
    note e2 = Cons.IH [OF this False]
    from e1 obtain k where k: "wb_key wb1 = Some k" by auto
    from e1 e2 k show ?thesis
      by (auto split: option.splits)
  qed
qed

lemma write_all_nil: "write_all fs wb [] = (Inr (), wb, fs)"
  by simp


lemma windows_inv_start: "alloc_ok fs \<Longrightarrow> windows_inv fs fs []"
  by (simp add: windows_inv_def)

lemma windows_inv_alloc:
  assumes inv: "windows_inv fs0 fs ws" and a0: "alloc_ok fs0"
    and r: "reps fs' = reps fs"
    and n: "next_string fs' = Suc (next_string fs)"
    and same: "\<forall>k'. k' \<noteq> key_of (next_string fs) \<longrightarrow> strings fs' k' = strings fs k'"
    and new: "strings fs' (key_of (next_string fs)) \<noteq> None"
  shows "windows_inv fs0 fs' ws"
    and "ww_key ww = Some (key_of (next_string fs)) \<Longrightarrow> windows_inv fs0 fs' (ws @ [ww])"
proof -
  from inv obtain ms where
    a: "alloc_ok fs" and r0: "reps fs = reps fs0" and le: "next_string fs0 \<le> next_string fs"
    and old: "\<forall>k. strings fs0 k \<noteq> None \<longrightarrow> strings fs k = strings fs0 k"
    and ms: "map ww_key ws = map (\<lambda>m. Some (key_of m)) ms" "distinct ms"
      "\<forall>m \<in> set ms. next_string fs0 \<le> m \<and> m < next_string fs \<and> strings fs (key_of m) \<noteq> None"
    by (auto simp: windows_inv_def)
  have a': "alloc_ok fs'"
    unfolding alloc_ok_def
  proof (intro allI impI)
    fix m assume "next_string fs' \<le> m"
    with n have m: "next_string fs < m" by simp
    then have "key_of m \<noteq> key_of (next_string fs)" using key_of_inj by blast
    with same have "strings fs' (key_of m) = strings fs (key_of m)" by simp
    with a m show "strings fs' (key_of m) = None" by (simp add: alloc_ok_def)
  qed
  have old': "\<forall>k. strings fs0 k \<noteq> None \<longrightarrow> strings fs' k = strings fs0 k"
  proof (intro allI impI)
    fix k assume k: "strings fs0 k \<noteq> None"
    with a0 le have "k \<noteq> key_of (next_string fs)" by (auto simp: alloc_ok_def)
    with same old k show "strings fs' k = strings fs0 k" by simp
  qed
  have keep: "next_string fs0 \<le> m \<and> m < next_string fs' \<and> strings fs' (key_of m) \<noteq> None"
    if "m \<in> set ms" for m
  proof -
    from ms(3) that have m: "next_string fs0 \<le> m" "m < next_string fs"
      "strings fs (key_of m) \<noteq> None" by auto
    from m(2) have "key_of m \<noteq> key_of (next_string fs)" using key_of_inj by blast
    with same m n show ?thesis by simp
  qed
  show "windows_inv fs0 fs' ws"
    unfolding windows_inv_def using a' r r0 le n old' ms(1,2) keep by auto
  assume ww: "ww_key ww = Some (key_of (next_string fs))"
  have "map ww_key (ws @ [ww]) = map (\<lambda>m. Some (key_of m)) (ms @ [next_string fs])"
    using ms(1) ww by simp
  moreover have "distinct (ms @ [next_string fs])"
    using ms(2,3) by auto
  moreover have "\<forall>m \<in> set (ms @ [next_string fs]).
      next_string fs0 \<le> m \<and> m < next_string fs' \<and> strings fs' (key_of m) \<noteq> None"
    using keep le n new by auto
  ultimately show "windows_inv fs0 fs' (ws @ [ww])"
    unfolding windows_inv_def using a' r r0 le n old' by (intro conjI exI [of _ "ms @ [next_string fs]"]) auto
qed


lemma handler_inv:
  assumes h: "new_target_handler lib hdone win fs wb1 = (Inr u, wb2, fs')"
    and key: "wb_key wb1 = None"
    and inv: "windows_inv fs0 fs ws" and a0: "alloc_ok fs0"
  shows "windows_inv fs0 fs' ws"
    and "\<lbrakk>win = Some w; encode_window lib w \<noteq> []; ww_key ww = wb_key wb2\<rbrakk>
         \<Longrightarrow> windows_inv fs0 fs' (ws @ [ww])"
proof -
  define datas where "datas = (if hdone then [] else [[0x53, 0x56, 0x4E, svndiff_version lib]])
          @ (case win of None \<Rightarrow> [] | Some w \<Rightarrow> encode_window lib w)"
  have w: "write_all fs wb1 datas = (Inr u, wb2, fs')"
    using h by (simp add: new_target_handler_def datas_def)
  show "windows_inv fs0 fs' ws"
  proof (cases "datas = []")
    case True
    with w inv show ?thesis by simp
  next
    case False
    from write_all_effect [OF w False] key inv a0 show ?thesis
      by (intro windows_inv_alloc(1) [of fs0 fs ws fs']) auto
  qed
  assume win: "win = Some w" and enc: "encode_window lib w \<noteq> []" and ww: "ww_key ww = wb_key wb2"
  then have ne: "datas \<noteq> []" by (simp add: datas_def)
  from write_all_effect [OF w ne] key inv a0 ww show "windows_inv fs0 fs' (ws @ [ww])"
    by (intro windows_inv_alloc(2) [of fs0 fs ws fs']) auto
qed

lemma next_window_digest:
  assumes "svn_txdelta_next_window lib fuel fs stream = Some (Inr win, stream')"
    and "\<not> ts_more stream \<longrightarrow> ts_digest stream \<noteq> None"
  shows "(win = None \<longrightarrow> ts_digest stream' \<noteq> None)
       \<and> (\<not> ts_more stream' \<longrightarrow> ts_digest stream' \<noteq> None)"
  using assms
  by (auto simp: svn_txdelta_next_window_def Let_def
      split: if_splits option.splits sum.splits prod.splits)

lemma deltify_windows_inv:
  assumes "deltify_windows lib n fuel fs stream hdone wb ws toff dsz
             = Some (Inr (ws', dsz', wb', stream'), fs')"
    and "windows_inv fs0 fs ws" and "alloc_ok fs0"
    and "\<forall>w. encode_window lib w \<noteq> []"
    and "\<not> ts_more stream \<longrightarrow> ts_digest stream \<noteq> None"
  shows "windows_inv fs0 fs' ws' \<and> ts_digest stream' \<noteq> None
       \<and> dsz' + sum_list (map svndiff_len ws) = dsz + sum_list (map svndiff_len ws')"
  using assms
proof (induction n arbitrary: fs stream hdone wb ws toff dsz)
  case 0
  then show ?case by simp
next
  case (Suc n)
  let ?wb1 = "wb\<lparr>wb_size := 0, wb_key := None\<rparr>"
  from Suc.prems(1) obtain win stream1 where
    nw: "svn_txdelta_next_window lib fuel fs stream = Some (Inr win, stream1)"
    by (auto split: option.splits sum.splits prod.splits)
  note dg = next_window_digest [OF nw Suc.prems(5)]
  from Suc.prems(1) nw obtain u wb2 fs1 where
    h: "new_target_handler lib hdone win fs ?wb1 = (Inr u, wb2, fs1)"
    by (auto simp: Let_def split: option.splits sum.splits prod.splits)
  have k: "wb_key ?wb1 = None" by simp
  show ?case
  proof (cases win)
    case None
    with Suc.prems(1) nw h have "ws' = ws" "dsz' = dsz" "stream' = stream1" "fs' = fs1"
      by (auto simp: Let_def)
    with handler_inv(1) [OF h k Suc.prems(2,3)] dg None show ?thesis by simp
  next
    case (Some w)
    let ?ww = "\<lparr> ww_key = wb_key wb2, svndiff_len = wb_size wb2,
                 text_off = toff, text_len = tview_len w \<rparr>"
    from Suc.prems(1) nw h Some have rec:
      "deltify_windows lib n fuel fs1 stream1 True wb2 (ws @ [?ww])
         (toff + tview_len w) (dsz + svndiff_len ?ww)
       = Some (Inr (ws', dsz', wb', stream'), fs')"
      by (simp add: Let_def)
    have inv1: "windows_inv fs0 fs1 (ws @ [?ww])"
      using handler_inv(2) [OF h k Suc.prems(2,3) Some] Suc.prems(4) by simp
    from Suc.IH [OF rec inv1 Suc.prems(3,4)] dg show ?thesis by simp
  qed
qed

lemma delete_window_strings_ok:
  assumes "map ww_key ws = map (\<lambda>m. Some (key_of m)) ms" and "distinct ms"
    and "\<forall>m \<in> set ms. strings fs (key_of m) \<noteq> None"
  shows "\<exists>fs'. delete_window_strings ws fs = (Inr (), fs') \<and> reps fs' = reps fs
           \<and> (\<forall>k. strings fs' k = (if k \<in> key_of ` set ms then None else strings fs k))"
  using assms
proof (induction ws arbitrary: ms fs)
  case Nil
  then show ?case by simp
next
  case (Cons ww ws)
  then obtain m ms' where ms: "ms = m # ms'" "ww_key ww = Some (key_of m)"
    "map ww_key ws = map (\<lambda>m. Some (key_of m)) ms'"
    by (cases ms) auto
  from Cons.prems ms obtain s where s: "strings fs (key_of m) = Some s" by auto
  define fs1 where "fs1 = fs\<lparr>strings := (strings fs)(key_of m := None)\<rparr>"
  have d: "svn_fs__bdb_string_delete fs (key_of m) = (Inr (), fs1)"
    using s by (simp add: svn_fs__bdb_string_delete_def fs1_def)
  have "\<forall>m' \<in> set ms'. strings fs1 (key_of m') \<noteq> None"
  proof
    fix m' assume m': "m' \<in> set ms'"
    with Cons.prems(2) ms have "m' \<noteq> m" by auto
    then have "key_of m' \<noteq> key_of m" using key_of_inj by blast
    with Cons.prems(3) ms m' show "strings fs1 (key_of m') \<noteq> None" by (simp add: fs1_def)
  qed
  with Cons.IH [OF ms(3), of fs1] Cons.prems(2) ms obtain fs' where
    r: "delete_window_strings ws fs1 = (Inr (), fs')" "reps fs' = reps fs1"
      "\<forall>k. strings fs' k = (if k \<in> key_of ` set ms' then None else strings fs1 k)"
    by auto
  have "delete_window_strings (ww # ws) fs = (Inr (), fs')"
    using ms d r by simp
  moreover have "reps fs' = reps fs" using r by (simp add: fs1_def)
  moreover have "\<forall>k. strings fs' k = (if k \<in> key_of ` set ms then None else strings fs k)"
    using r ms by (auto simp: fs1_def)
  ultimately show ?case by blast
qed


lemma window_chunks_some:
  "map ww_key ws = map (\<lambda>m. Some (key_of m)) ms \<Longrightarrow>
     \<exists>chunks. window_chunks ver dgst source ws = Some chunks \<and> length chunks = length ws
        \<and> map string_key chunks = map key_of ms
        \<and> map chunk_offset chunks = map text_off ws
        \<and> map chunk_size chunks = map text_len ws"
proof (induction ws arbitrary: ms)
  case Nil
  then show ?case by simp
next
  case (Cons ww ws)
  then obtain m ms' where ms: "ms = m # ms'" "ww_key ww = Some (key_of m)"
    "map ww_key ws = map (\<lambda>m. Some (key_of m)) ms'"
    by (cases ms) auto
  from Cons.IH [OF ms(3)] ms show ?case by auto
qed

lemma alloc_okI:
  "(\<And>k. strings fs k \<noteq> None \<Longrightarrow> \<exists>j < next_string fs. k = key_of j) \<Longrightarrow> alloc_ok fs"
  unfolding alloc_ok_def
proof (intro allI impI)
  fix m assume k: "\<And>k. strings fs k \<noteq> None \<Longrightarrow> \<exists>j < next_string fs. k = key_of j"
    and m: "next_string fs \<le> m"
  show "strings fs (key_of m) = None"
  proof (rule ccontr)
    assume "strings fs (key_of m) \<noteq> None"
    from k [OF this] obtain j where "j < next_string fs" "key_of m = key_of j" by auto
    with m key_of_inj show False by fastforce
  qed
qed

lemma key_of_small:
  "key_of 0 = ''0''" "key_of 1 = ''1''" "key_of 2 = ''2''" "key_of 3 = ''3''" "key_of 4 = ''4''"
  by (simp_all add: key_of_def decimal.simps)

lemma alloc_ok_fs_delta: "alloc_ok fs_delta"
proof (rule alloc_okI)
  fix k assume "strings fs_delta k \<noteq> None"
  then have "k = key_of 0 \<or> k = key_of 1 \<or> k = key_of 2 \<or> k = key_of 3 \<or> k = key_of 4"
    unfolding key_of_small by (auto simp: fs_delta_def split: if_splits)
  moreover have "next_string fs_delta = 5" by (simp add: fs_delta_def)
  ultimately show "\<exists>j < next_string fs_delta. k = key_of j"
    by (elim disjE) (rule exI [of _ 0], simp, rule exI [of _ 1], simp, rule exI [of _ 2], simp,
        rule exI [of _ 3], simp, rule exI [of _ 4], simp)
qed

lemma ref_encode_not_nil: "\<forall>w. encode_window ref_lib w \<noteq> []"
  by (simp add: ref_lib_def ref_encode_def)



lemma loop_fs_delta_0_1:
  "(case deltify_windows ref_lib (Suc (Suc 0)) (Suc (Suc 0)) fs_delta
       (svn_txdelta
          \<lparr> rb_rep_key = Some ''1'', rb_offset = 0, rb_md5_context = [], rb_size = 7,
            rb_checksum_finalized = False \<rparr>
          \<lparr> rb_rep_key = Some ''0'', rb_offset = 0, rb_md5_context = [], rb_size = 6,
            rb_checksum_finalized = False \<rparr>)
       False \<lparr>wb_key = None, wb_size = 0, wb_header_read = 0, wb_version = 0\<rparr> [] 0 0 of
      Some (Inr (windows, diffsize, wb, stream), fs1) \<Rightarrow> diffsize = 18
    | _ \<Rightarrow> False)"
  by (simp add: deltify_defs stream_defs read_defs ref_defs fs_delta_def)


lemma loop_fs_delta_2_0:
  "(case deltify_windows ref_lib (Suc (Suc 0)) (Suc (Suc 0)) fs_delta
       (svn_txdelta
          \<lparr> rb_rep_key = Some ''0'', rb_offset = 0, rb_md5_context = [], rb_size = 6,
            rb_checksum_finalized = False \<rparr>
          \<lparr> rb_rep_key = Some ''2'', rb_offset = 0, rb_md5_context = [], rb_size = 7,
            rb_checksum_finalized = False \<rparr>)
       False \<lparr>wb_key = None, wb_size = 0, wb_header_read = 0, wb_version = 0\<rparr> [] 0 0 of
      Some (Inr (windows, diffsize, wb, stream), fs1) \<Rightarrow> diffsize = 18
    | _ \<Rightarrow> False)"
  by (simp add: deltify_defs stream_defs read_defs ref_defs fs_delta_def)

lemma read_stream_fs_delta:
  "svn_fs__rep_contents_read_stream fs_delta (Some ''0'')
     = Inr \<lparr> rb_rep_key = Some ''0'', rb_offset = 0, rb_md5_context = [], rb_size = 6,
             rb_checksum_finalized = False \<rparr>"
  "svn_fs__rep_contents_read_stream fs_delta (Some ''1'')
     = Inr \<lparr> rb_rep_key = Some ''1'', rb_offset = 0, rb_md5_context = [], rb_size = 7,
             rb_checksum_finalized = False \<rparr>"
  "svn_fs__rep_contents_read_stream fs_delta (Some ''2'')
     = Inr \<lparr> rb_rep_key = Some ''2'', rb_offset = 0, rb_md5_context = [], rb_size = 7,
             rb_checksum_finalized = False \<rparr>"
  by (simp_all add: stream_defs svn_fs__bdb_read_rep_def fs_delta_def)

text \<open>
  C5. \<^verbatim>\<open>svn_fs__rep_deltify\<close> of \<open>target\<close> against another key, in a filesystem whose
  counter of string keys is ahead of the keys in use and with an encoder that writes
  something for every window, when the loop over the windows has ended with the array
  \<open>windows\<close> and the total \<open>diffsize\<close> of the svndiff bytes written (the sum of the
  windows' \<open>svndiff_len\<close>). If the old representation is a fulltext whose string has no
  more bytes than \<open>diffsize\<close>, the call succeeds, every representation record is as
  before, every string that existed before is as before (the string of the target among
  them), and the string of every window, written during the loop, is deleted. If the old
  representation is a delta, the new delta representation built from the windows is
  written under \<open>target\<close>, with the old checksum, and the old strings are deleted,
  whatever \<open>diffsize\<close> is.
\<close>

theorem deltify_size_guard:
  assumes a: "alloc_ok fs" and enc: "\<forall>w. encode_window lib w \<noteq> []"
    and ne: "target \<noteq> source"
    and ss: "svn_fs__rep_contents_read_stream fs (Some source) = Inr source_stream"
    and ts: "svn_fs__rep_contents_read_stream fs (Some target) = Inr target_stream"
    and loop: "deltify_windows lib fuel fuel fs (svn_txdelta source_stream target_stream) False
                 \<lparr>wb_key = None, wb_size = 0, wb_header_read = 0, wb_version = 0\<rparr> [] 0 0
               = Some (Inr (windows, diffsize, wb, stream), fs1)"
    and old: "reps fs target = Some old_rep"
  shows "diffsize = sum_list (map svndiff_len windows)
     \<and> (\<forall>str_key s.
           contents old_rep = Fulltext (Some str_key) \<and> strings fs str_key = Some s
           \<and> diffsize \<ge> length s
           \<longrightarrow> (\<exists>fs2. svn_fs__rep_deltify lib fuel fs target source = Some (Inr (), fs2)
                  \<and> reps fs2 = reps fs
                  \<and> (\<forall>k. strings fs k \<noteq> None \<longrightarrow> strings fs2 k = strings fs k)
                  \<and> (\<forall>ww \<in> set windows.
                        \<exists>k. ww_key ww = Some k \<and> strings fs k = None
                          \<and> strings fs1 k \<noteq> None \<and> strings fs2 k = None)))
     \<and> (\<forall>chunks.
           contents old_rep = Delta chunks
           \<longrightarrow> (\<exists>d new_chunks.
                  window_chunks (wb_version wb) d source windows = Some new_chunks
                  \<and> length new_chunks = length windows
                  \<and> svn_fs__rep_deltify lib fuel fs target source
                      = Some (delete_strings (map string_key chunks)
                               (svn_fs__bdb_write_rep fs1 target
                                  \<lparr> contents = Delta new_chunks, txn_id = None,
                                    checksum = checksum old_rep \<rparr>))))"
proof -
  have start: "\<not> ts_more (svn_txdelta source_stream target_stream)
                \<longrightarrow> ts_digest (svn_txdelta source_stream target_stream) \<noteq> None"
    by (simp add: svn_txdelta_def)
  from deltify_windows_inv [OF loop windows_inv_start [OF a] a enc start]
  have inv: "windows_inv fs fs1 windows" and dg: "ts_digest stream \<noteq> None"
    and sz: "diffsize = sum_list (map svndiff_len windows)"
    by simp_all
  from dg obtain d where d: "ts_digest stream = Some d" by auto
  from inv obtain ms where
    r1: "reps fs1 = reps fs"
    and keep: "\<forall>k. strings fs k \<noteq> None \<longrightarrow> strings fs1 k = strings fs k"
    and ms: "map ww_key windows = map (\<lambda>m. Some (key_of m)) ms" "distinct ms"
      "\<forall>m \<in> set ms. next_string fs \<le> m \<and> m < next_string fs1
                       \<and> strings fs1 (key_of m) \<noteq> None"
    by (auto simp: windows_inv_def)
  have run: "svn_fs__rep_deltify lib fuel fs target source
      = Some (deltify_replace fs1 target source windows diffsize (wb_version wb) (Some d))"
    using ne ss ts loop d by (simp add: svn_fs__rep_deltify_def)
  have rd: "svn_fs__bdb_read_rep fs1 target = Inr old_rep"
    using old r1 by (simp add: svn_fs__bdb_read_rep_def)
  have full: "\<exists>fs2. svn_fs__rep_deltify lib fuel fs target source = Some (Inr (), fs2)
                  \<and> reps fs2 = reps fs
                  \<and> (\<forall>k. strings fs k \<noteq> None \<longrightarrow> strings fs2 k = strings fs k)
                  \<and> (\<forall>ww \<in> set windows.
                        \<exists>k. ww_key ww = Some k \<and> strings fs k = None
                          \<and> strings fs1 k \<noteq> None \<and> strings fs2 k = None)"
    if c: "contents old_rep = Fulltext (Some str_key)" and s: "strings fs str_key = Some s"
      and big: "diffsize \<ge> length s" for str_key s
  proof -
    have "strings fs1 str_key = Some s" using keep s by simp
    then have "deltify_replace fs1 target source windows diffsize (wb_version wb) (Some d)
        = delete_window_strings windows fs1"
      using rd c big by (simp add: deltify_replace_def svn_fs__bdb_string_size_def)
    moreover from delete_window_strings_ok [OF ms(1,2), of fs1] ms(3) obtain fs2 where
      del: "delete_window_strings windows fs1 = (Inr (), fs2)" "reps fs2 = reps fs1"
        "\<forall>k. strings fs2 k = (if k \<in> key_of ` set ms then None else strings fs1 k)"
      by auto
    ultimately have res: "svn_fs__rep_deltify lib fuel fs target source = Some (Inr (), fs2)"
      using run by simp
    have fresh: "strings fs (key_of m) = None" if "m \<in> set ms" for m
      using a ms(3) that by (auto simp: alloc_ok_def)
    have k1: "\<forall>k. strings fs k \<noteq> None \<longrightarrow> strings fs2 k = strings fs k"
      using del(3) keep fresh by auto
    have k2: "\<exists>k. ww_key ww = Some k \<and> strings fs k = None
                \<and> strings fs1 k \<noteq> None \<and> strings fs2 k = None"
      if "ww \<in> set windows" for ww
    proof -
      from that have "ww_key ww \<in> set (map ww_key windows)" by simp
      with ms(1) obtain m where m: "m \<in> set ms" "ww_key ww = Some (key_of m)" by auto
      with fresh ms(3) del(3) show ?thesis by auto
    qed
    from res del(2) r1 k1 k2 show ?thesis by auto
  qed
  have delta: "\<exists>d new_chunks.
                  window_chunks (wb_version wb) d source windows = Some new_chunks
                  \<and> length new_chunks = length windows
                  \<and> svn_fs__rep_deltify lib fuel fs target source
                      = Some (delete_strings (map string_key chunks)
                               (svn_fs__bdb_write_rep fs1 target
                                  \<lparr> contents = Delta new_chunks, txn_id = None,
                                    checksum = checksum old_rep \<rparr>))"
    if c: "contents old_rep = Delta chunks" for chunks
  proof -
    from window_chunks_some [OF ms(1), of "wb_version wb" d source] obtain new_chunks where
      nc: "window_chunks (wb_version wb) d source windows = Some new_chunks"
        "length new_chunks = length windows"
      by auto
    have "deltify_replace fs1 target source windows diffsize (wb_version wb) (Some d)
        = delete_strings (map string_key chunks)
            (svn_fs__bdb_write_rep fs1 target
               \<lparr> contents = Delta new_chunks, txn_id = None, checksum = checksum old_rep \<rparr>)"
      using rd c nc by (simp add: deltify_replace_def delta_string_keys_def Let_def)
    with run nc show ?thesis by auto
  qed
  show ?thesis using sz full delta by blast
qed


text \<open>
  C5, witness. In \<open>fs_delta\<close>, deltifying the fulltext \<open>0\<close> (6 bytes) against \<open>1\<close>
  gives 18 bytes of svndiff: nothing is replaced. Deltifying the delta \<open>2\<close> against \<open>0\<close>
  gives 18 bytes for 7 bytes of text, and the representation is replaced all the same.
\<close>

theorem deltify_size_guard_witness:
  "(\<exists>fs2. svn_fs__rep_deltify ref_lib (Suc (Suc 0)) fs_delta ''0'' ''1'' = Some (Inr (), fs2)
          \<and> reps fs2 = reps fs_delta \<and> strings fs2 ''0'' = strings fs_delta ''0'')
   \<and> (\<exists>fs1 new_chunks.
          svn_fs__rep_deltify ref_lib (Suc (Suc 0)) fs_delta ''2'' ''0''
            = Some (delete_strings [''3'', ''4'']
                     (svn_fs__bdb_write_rep fs1 ''2''
                        \<lparr> contents = Delta new_chunks, txn_id = None,
                          checksum = checksum (the (reps fs_delta ''2'')) \<rparr>)))"
proof
  from loop_fs_delta_0_1 obtain windows diffsize wb stream fs1 where
    loop: "deltify_windows ref_lib (Suc (Suc 0)) (Suc (Suc 0)) fs_delta
       (svn_txdelta
          \<lparr> rb_rep_key = Some ''1'', rb_offset = 0, rb_md5_context = [], rb_size = 7,
            rb_checksum_finalized = False \<rparr>
          \<lparr> rb_rep_key = Some ''0'', rb_offset = 0, rb_md5_context = [], rb_size = 6,
            rb_checksum_finalized = False \<rparr>)
       False \<lparr>wb_key = None, wb_size = 0, wb_header_read = 0, wb_version = 0\<rparr> [] 0 0
      = Some (Inr (windows, diffsize, wb, stream), fs1)" and d: "diffsize = 18"
    by (auto split: option.splits sum.splits prod.splits)
  have ne: "''0'' \<noteq> ''1''" by simp
  have old: "reps fs_delta ''0'' = Some (the (reps fs_delta ''0''))"
    by (simp add: fs_delta_def)
  have c: "contents (the (reps fs_delta ''0'')) = Fulltext (Some ''0'')"
    and s: "strings fs_delta ''0'' = Some [0x61, 0x62, 0x63, 0x64, 0x65, 0x66]"
    by (simp_all add: fs_delta_def)
  from deltify_size_guard [OF alloc_ok_fs_delta ref_encode_not_nil ne
      read_stream_fs_delta(2) read_stream_fs_delta(1) loop old] c s d
  obtain fs2 where
    "svn_fs__rep_deltify ref_lib (Suc (Suc 0)) fs_delta ''0'' ''1'' = Some (Inr (), fs2)"
    "reps fs2 = reps fs_delta"
    "\<forall>k. strings fs_delta k \<noteq> None \<longrightarrow> strings fs2 k = strings fs_delta k"
    by force
  with s show "\<exists>fs2. svn_fs__rep_deltify ref_lib (Suc (Suc 0)) fs_delta ''0'' ''1''
                  = Some (Inr (), fs2)
          \<and> reps fs2 = reps fs_delta \<and> strings fs2 ''0'' = strings fs_delta ''0''"
    by auto
next
  from loop_fs_delta_2_0 obtain windows diffsize wb stream fs1 where
    loop: "deltify_windows ref_lib (Suc (Suc 0)) (Suc (Suc 0)) fs_delta
       (svn_txdelta
          \<lparr> rb_rep_key = Some ''0'', rb_offset = 0, rb_md5_context = [], rb_size = 6,
            rb_checksum_finalized = False \<rparr>
          \<lparr> rb_rep_key = Some ''2'', rb_offset = 0, rb_md5_context = [], rb_size = 7,
            rb_checksum_finalized = False \<rparr>)
       False \<lparr>wb_key = None, wb_size = 0, wb_header_read = 0, wb_version = 0\<rparr> [] 0 0
      = Some (Inr (windows, diffsize, wb, stream), fs1)"
    by (auto split: option.splits sum.splits prod.splits)
  have ne: "''2'' \<noteq> ''0''" by simp
  have old: "reps fs_delta ''2'' = Some (the (reps fs_delta ''2''))"
    by (simp add: fs_delta_def)
  have "\<exists>chunks. contents (the (reps fs_delta ''2'')) = Delta chunks
           \<and> map string_key chunks = [''3'', ''4'']"
    by (simp add: fs_delta_def)
  then obtain chunks where c: "contents (the (reps fs_delta ''2'')) = Delta chunks"
    and k: "map string_key chunks = [''3'', ''4'']" by auto
  from deltify_size_guard [OF alloc_ok_fs_delta ref_encode_not_nil ne
      read_stream_fs_delta(1) read_stream_fs_delta(3) loop old] c k
  show "\<exists>fs1 new_chunks.
          svn_fs__rep_deltify ref_lib (Suc (Suc 0)) fs_delta ''2'' ''0''
            = Some (delete_strings [''3'', ''4'']
                     (svn_fs__bdb_write_rep fs1 ''2''
                        \<lparr> contents = Delta new_chunks, txn_id = None,
                          checksum = checksum (the (reps fs_delta ''2'')) \<rparr>))"
    by force
qed

subsection \<open>Reading a range of a representation\<close>












text \<open>How \<^verbatim>\<open>get_one_window\<close> leaves the baton.\<close>

lemma compose_handler_closing:
  "\<not> cb_init cb \<Longrightarrow> compose_handler lib None cb = Inr cb"
  by (simp add: compose_handler_def)








































end
